theory Spec2Isabelle
  imports Complex_Main "HOL-Library.Log_Nat"
begin

section \<open>Python floats\<close>

text \<open>
  A Python \<open>float\<close> is an IEEE 754 binary64 number: a finite value (a rational), one of
  the two infinities, or NaN. \<open>float("inf")\<close> is \<open>PInf\<close>. The sign of a zero is not
  kept: no operation of \<open>utils.py\<close> observes it. A Python \<open>int\<close> that meets a float in a
  comparison is compared by its exact value, so the int \<open>5\<close> is \<open>Fin 5\<close> there.
\<close>

datatype pyfloat = Fin rat | PInf | NInf | NaN

text \<open>\<open>a < b\<close> on floats: every comparison with NaN is false.\<close>

fun flt :: "pyfloat \<Rightarrow> pyfloat \<Rightarrow> bool" where
  "flt NaN _ = False"
| "flt _ NaN = False"
| "flt (Fin x) (Fin y) = (x < y)"
| "flt (Fin _) PInf = True"
| "flt (Fin _) NInf = False"
| "flt PInf _ = False"
| "flt NInf NInf = False"
| "flt NInf _ = True"

text \<open>\<open>a > b\<close> is \<open>b < a\<close>.\<close>

definition fgt :: "pyfloat \<Rightarrow> pyfloat \<Rightarrow> bool" where
  "fgt a b = flt b a"

subsection \<open>Rounding to nearest, ties to even\<close>

definition pow2 :: "int \<Rightarrow> rat" where
  "pow2 k = (if 0 \<le> k then 2 ^ nat k else 1 / 2 ^ nat (- k))"

text \<open>\<open>ilog2 q\<close> is the floor of the binary logarithm of a positive rational.\<close>

definition ilog2 :: "rat \<Rightarrow> int" where
  "ilog2 q = (if 1 \<le> q then bitlen \<lfloor>q\<rfloor> - 1 else - bitlen (\<lceil>1 / q\<rceil> - 1))"

definition round_half_even :: "rat \<Rightarrow> int" where
  "round_half_even q =
     (let f = \<lfloor>q\<rfloor>; r = q - of_int f
      in if r < 1 / 2 then f else if 1 / 2 < r then f + 1 else if even f then f else f + 1)"

text \<open>
  \<open>fl_round p emin emax q\<close> rounds the exact result \<open>q\<close> of an operation to the binary
  format with \<open>p\<close> bits of precision whose smallest positive (subnormal) number is
  \<open>2 ^ emin\<close> and whose finite numbers are below \<open>2 ^ emax\<close>. A result that rounds to
  \<open>2 ^ emax\<close> or beyond (its binary logarithm reaches \<open>emax\<close>) overflows to an infinity.
\<close>

definition fl_round :: "nat \<Rightarrow> int \<Rightarrow> int \<Rightarrow> rat \<Rightarrow> pyfloat" where
  "fl_round p emin emax q =
     (if q = 0 then Fin 0
      else let a = \<bar>q\<bar>;
               e = max (ilog2 a - (int p - 1)) emin;
               r = of_int (round_half_even (a / pow2 e)) * pow2 e
           in if emax \<le> ilog2 r then (if 0 < q then PInf else NInf)
              else Fin (if 0 < q then r else - r))"

text \<open>binary64, the format of a Python float, and binary32, torch's default dtype.\<close>

definition double :: "rat \<Rightarrow> pyfloat" where
  "double = fl_round 53 (- 1074) 1024"

definition float32 :: "rat \<Rightarrow> pyfloat" where
  "float32 = fl_round 24 (- 149) 128"

section \<open>Console output and calls to the framework\<close>

text \<open>
  What the functions of \<open>utils.py\<close> do to the outside is recorded as a list of events, in
  the order in which it happens: the calls to the model, the loss function, the optimizer
  and the scheduler, the calls of the logging callback, and what is printed. \<open>Forward g\<close>
  is a forward pass and \<open>Criterion g l\<close> a call of the loss function that returned the
  loss \<open>l\<close>; \<open>g\<close> is false when the call stands under \<open>torch.no_grad()\<close>.
\<close>

datatype event =
    ModelEval
  | ModelTrain
  | ModelTo
  | Forward bool
  | Criterion bool pyfloat
  | ZeroGrad
  | Backward
  | OptStep
  | SchedStep pyfloat
  | LogFn int pyfloat pyfloat
  | LogFnUnet int pyfloat pyfloat pyfloat pyfloat
  | PrintCounter int
  | PrintBest pyfloat
  | PrintStop int pyfloat

section \<open>Early stopping\<close>

text \<open>The attributes that \<open>EarlyStopping\<close> and \<open>EarlyStoppingForUnet\<close> both set.\<close>

record early_stopping =
  patience :: int
  counter :: int
  best_score :: pyfloat
  val_loss_min :: pyfloat
  early_stop :: bool

definition EarlyStopping_init :: "int \<Rightarrow> early_stopping" where
  "EarlyStopping_init p =
     \<lparr>patience = p, counter = 0, best_score = PInf, val_loss_min = PInf, early_stop = False\<rparr>"

definition EarlyStopping_call :: "early_stopping \<Rightarrow> pyfloat \<Rightarrow> early_stopping" where
  "EarlyStopping_call self val_loss =
     (if fgt val_loss (best_score self)
      then (let self1 = self\<lparr>counter := counter self + 1\<rparr>
            in if patience self1 \<le> counter self1 then self1\<lparr>early_stop := True\<rparr> else self1)
      else self\<lparr>best_score := val_loss, counter := 0\<rparr>)"

definition EarlyStoppingForUnet_init :: "int \<Rightarrow> early_stopping" where
  "EarlyStoppingForUnet_init p =
     \<lparr>patience = p, counter = 0, best_score = Fin 0, val_loss_min = PInf, early_stop = False\<rparr>"

text \<open>The Dice variant prints a line in either branch; the line is returned with the state.\<close>

definition EarlyStoppingForUnet_call :: "early_stopping \<Rightarrow> pyfloat \<Rightarrow> early_stopping \<times> event list" where
  "EarlyStoppingForUnet_call self dice =
     (if flt dice (best_score self)
      then (let self1 = self\<lparr>counter := counter self + 1\<rparr>
            in (if patience self1 \<le> counter self1 then self1\<lparr>early_stop := True\<rparr> else self1,
                [PrintCounter (counter self1)]))
      else (self\<lparr>best_score := dice, counter := 0\<rparr>, [PrintBest dice]))"

text \<open>
  One call per epoch: \<open>calls\<close> feeds a sequence of scores to a policy and lists the state
  after each call.
\<close>

fun calls :: "('s \<Rightarrow> 'a \<Rightarrow> 's) \<Rightarrow> 's \<Rightarrow> 'a list \<Rightarrow> 's list" where
  "calls f s [] = []"
| "calls f s (x # xs) = f s x # calls f (f s x) xs"

definition unet_call :: "early_stopping \<Rightarrow> pyfloat \<Rightarrow> early_stopping" where
  "unet_call self dice = fst (EarlyStoppingForUnet_call self dice)"

section \<open>Float arithmetic\<close>

text \<open>
  Addition and division of IEEE numbers, for a rounding function \<open>rnd\<close> of the format.
  A zero divisor is a positive zero (every zero divisor below comes from an integer).
\<close>

fun ieee_add :: "(rat \<Rightarrow> pyfloat) \<Rightarrow> pyfloat \<Rightarrow> pyfloat \<Rightarrow> pyfloat" where
  "ieee_add rnd NaN _ = NaN"
| "ieee_add rnd _ NaN = NaN"
| "ieee_add rnd PInf NInf = NaN"
| "ieee_add rnd NInf PInf = NaN"
| "ieee_add rnd PInf _ = PInf"
| "ieee_add rnd _ PInf = PInf"
| "ieee_add rnd NInf _ = NInf"
| "ieee_add rnd _ NInf = NInf"
| "ieee_add rnd (Fin a) (Fin b) = rnd (a + b)"

fun ieee_div :: "(rat \<Rightarrow> pyfloat) \<Rightarrow> pyfloat \<Rightarrow> pyfloat \<Rightarrow> pyfloat" where
  "ieee_div rnd NaN _ = NaN"
| "ieee_div rnd _ NaN = NaN"
| "ieee_div rnd (Fin a) (Fin b) =
     (if b = 0 then (if a = 0 then NaN else if 0 < a then PInf else NInf) else rnd (a / b))"
| "ieee_div rnd (Fin a) _ = Fin 0"
| "ieee_div rnd PInf (Fin b) = (if 0 \<le> b then PInf else NInf)"
| "ieee_div rnd NInf (Fin b) = (if 0 \<le> b then NInf else PInf)"
| "ieee_div rnd _ _ = NaN"

text \<open>Python's \<open>a + b\<close> on floats; an int \<open>0\<close> that a float is added to is \<open>Fin 0\<close>.\<close>

definition fadd :: "pyfloat \<Rightarrow> pyfloat \<Rightarrow> pyfloat" where
  "fadd = ieee_add double"

datatype py_error = ZeroDivisionError | OverflowError | RuntimeError

text \<open>
  Python's \<open>a / len(loader)\<close>: the length is converted to a float, and a zero length
  raises ZeroDivisionError. (\<open>0 / 0\<close> on two ints raises it as well.)
\<close>

definition py_div_len :: "pyfloat \<Rightarrow> nat \<Rightarrow> py_error + pyfloat" where
  "py_div_len a n =
     (if n = 0 then Inl ZeroDivisionError
      else case double (of_nat n) of
             Fin d \<Rightarrow> Inr (ieee_div double a (Fin d))
           | _ \<Rightarrow> Inl OverflowError)"

text \<open>\<open>(epoch + 1) % log_every == 0\<close>; the modulo raises for \<open>log_every = 0\<close>.\<close>

definition log_due :: "int \<Rightarrow> int \<Rightarrow> py_error + bool" where
  "log_due epoch log_every =
     (if log_every = 0 then Inl ZeroDivisionError else Inr ((epoch + 1) mod log_every = 0))"

section \<open>Tensor statistics\<close>

text \<open>
  An integer tensor (the arg-max predictions, the \<open>long\<close> targets) is the list of its
  elements. Element-wise operations need tensors of one size; for two sizes torch raises
  (broadcasting between different shapes is not modelled). Sums are not wrapped at 64 bits.
\<close>

definition count_eq :: "int list \<Rightarrow> int list \<Rightarrow> int" where
  "count_eq ps ys = int (length (filter (\<lambda>(p, t). p = t) (zip ps ys)))"

definition sum_prod :: "int list \<Rightarrow> int list \<Rightarrow> int" where
  "sum_prod ps ys = sum_list (map (\<lambda>(p, t). p * t) (zip ps ys))"

definition sum_plus :: "int list \<Rightarrow> int list \<Rightarrow> int" where
  "sum_plus ps ys = sum_list (map (\<lambda>(p, t). p + t) (zip ps ys))"

text \<open>
  torch computes \<open>/\<close> on integer operands, and \<open>+\<close> of an integer tensor and a Python
  float, in its default floating dtype, float32: the operands are cast to it first.
\<close>

definition to_float32 :: "pyfloat \<Rightarrow> pyfloat" where
  "to_float32 a = (case a of Fin q \<Rightarrow> float32 q | _ \<Rightarrow> a)"

definition tensor_div :: "int \<Rightarrow> int \<Rightarrow> pyfloat" where
  "tensor_div a b = ieee_div float32 (float32 (of_int a)) (float32 (of_int b))"

text \<open>\<open>(2 * intersection) / (denom + 1e-8)\<close>\<close>

definition dice_of :: "int \<Rightarrow> int \<Rightarrow> pyfloat" where
  "dice_of i d =
     ieee_div float32 (float32 (of_int (2 * i)))
       (ieee_add float32 (float32 (of_int d)) (to_float32 (double (1 / 10 ^ 8))))"

section \<open>The framework\<close>

text \<open>
  The model, the loss function, the optimizer, the scheduler and the device are not code
  of \<open>utils.py\<close>: they are parameters. \<open>'w\<close> is everything they own (the parameters of
  the model, its mode, the gradients, the state of the optimizer and of the scheduler);
  each operation says how a call changes it. The calls are taken to return.
  \<^item> \<open>model_eval\<close>, \<open>model_train\<close>, \<open>model_to\<close>: \<open>model.eval()\<close>, \<open>model.train()\<close>,
    \<open>model.to(device)\<close>;
  \<^item> \<open>x_to\<close>, \<open>y_to\<close>: \<open>x.to(device)\<close> and \<open>y.to(device)\<close>, for the U-Net functions
    \<open>x.to(device=device, dtype=torch.float32)\<close> and
    \<open>y.to(device=device, dtype=torch.long).squeeze(1)\<close>;
  \<^item> \<open>forward g w x\<close>: \<open>model(x)\<close>, with \<open>g\<close> false under \<open>torch.no_grad()\<close>;
  \<^item> \<open>criterion out y\<close>: the \<open>.item()\<close> of \<open>criterion(out, y)\<close>;
  \<^item> \<open>backward out y\<close>: \<open>.backward()\<close> of that loss;
  \<^item> \<open>zero_grad\<close>, \<open>opt_step\<close>: \<open>optimizer.zero_grad()\<close>, \<open>optimizer.step()\<close>;
  \<^item> \<open>sched_step l\<close>: \<open>scheduler.step(l)\<close>;
  \<^item> \<open>argmax out\<close>: the elements of \<open>torch.argmax(out, dim=1)\<close>;
  \<^item> \<open>labels y\<close>: the elements of the integer tensor \<open>y\<close>.
\<close>

record ('w, 'x, 'y, 'o) torch =
  model_eval :: "'w \<Rightarrow> 'w"
  model_train :: "'w \<Rightarrow> 'w"
  model_to :: "'w \<Rightarrow> 'w"
  x_to :: "'x \<Rightarrow> 'x"
  y_to :: "'y \<Rightarrow> 'y"
  forward :: "bool \<Rightarrow> 'w \<Rightarrow> 'x \<Rightarrow> 'o \<times> 'w"
  criterion :: "'o \<Rightarrow> 'y \<Rightarrow> pyfloat"
  backward :: "'o \<Rightarrow> 'y \<Rightarrow> 'w \<Rightarrow> 'w"
  zero_grad :: "'w \<Rightarrow> 'w"
  opt_step :: "'w \<Rightarrow> 'w"
  sched_step :: "pyfloat \<Rightarrow> 'w \<Rightarrow> 'w"
  argmax :: "'o \<Rightarrow> int list"
  labels :: "'y \<Rightarrow> int list"

text \<open>
  A function of \<open>utils.py\<close> takes the framework's state and returns its result or the
  exception it raises, the state it leaves, and the events it caused.
\<close>

section \<open>evaluate\<close>

fun evaluate_batches ::
  "('w, 'x, 'y, 'o) torch \<Rightarrow> ('x \<times> 'y) list \<Rightarrow> 'w \<Rightarrow> pyfloat \<Rightarrow> pyfloat \<times> 'w \<times> event list" where
  "evaluate_batches T [] w total_loss = (total_loss, w, [])"
| "evaluate_batches T ((x, y) # rest) w total_loss =
     (let x1 = x_to T x;
          y1 = y_to T y;
          (output, w1) = forward T False w x1;
          l = criterion T output y1
      in case evaluate_batches T rest w1 (fadd total_loss l) of
           (r, w2, evs) \<Rightarrow> (r, w2, Forward False # Criterion False l # evs))"

definition evaluate ::
  "('w, 'x, 'y, 'o) torch \<Rightarrow> ('x \<times> 'y) list \<Rightarrow> 'w \<Rightarrow> (py_error + pyfloat) \<times> 'w \<times> event list" where
  "evaluate T data_loader w =
     (case evaluate_batches T data_loader (model_eval T w) (Fin 0) of
        (total_loss, w1, evs) \<Rightarrow>
          (py_div_len total_loss (length data_loader), w1, ModelEval # evs))"

section \<open>evaluate_unet\<close>

text \<open>
  The local variables of \<open>evaluate_unet\<close>. \<open>correct\<close> is not assigned before the loop; it
  is read only after an iteration has assigned it, since with an empty loader the division
  by the length raises first.
\<close>

record unet_vars =
  correct :: int
  intersection :: int
  denom :: int
  total :: int
  dice :: pyfloat

fun evaluate_unet_batches ::
  "('w, 'x, 'y, 'o) torch \<Rightarrow> ('x \<times> 'y) list \<Rightarrow> 'w \<Rightarrow> pyfloat \<Rightarrow> unet_vars
     \<Rightarrow> (py_error + pyfloat \<times> unet_vars) \<times> 'w \<times> event list" where
  "evaluate_unet_batches T [] w total_loss v = (Inr (total_loss, v), w, [])"
| "evaluate_unet_batches T ((x, y) # rest) w total_loss v =
     (let v1 = v\<lparr>correct := 0, intersection := 0, denom := 0, total := 0\<rparr>;
          x1 = x_to T x;
          y1 = y_to T y;
          (scores, w1) = forward T False w x1;
          l = criterion T scores y1;
          predictions = argmax T scores
      in if length predictions \<noteq> length (labels T y1)
         then (Inl RuntimeError, w1, [Forward False, Criterion False l])
         else
           (let v2 = v1\<lparr>correct := correct v1 + count_eq predictions (labels T y1)\<rparr>;
                v3 = v2\<lparr>total := total v2 + int (length predictions)\<rparr>;
                v4 = v3\<lparr>intersection := intersection v3 + sum_prod predictions (labels T y1)\<rparr>;
                v5 = v4\<lparr>denom := denom v4 + sum_plus predictions (labels T y1)\<rparr>;
                v6 = v5\<lparr>dice := dice_of (intersection v5) (denom v5)\<rparr>
            in case evaluate_unet_batches T rest w1 (fadd total_loss l) v6 of
                 (r, w2, evs) \<Rightarrow> (r, w2, Forward False # Criterion False l # evs)))"

definition evaluate_unet ::
  "('w, 'x, 'y, 'o) torch \<Rightarrow> ('x \<times> 'y) list \<Rightarrow> 'w
     \<Rightarrow> (py_error + pyfloat \<times> pyfloat \<times> pyfloat) \<times> 'w \<times> event list" where
  "evaluate_unet T data_loader w =
     (let v0 = \<lparr>correct = 0, intersection = 0, denom = 0, total = 0, dice = Fin 0\<rparr>
      in case evaluate_unet_batches T data_loader (model_to T (model_eval T w)) (Fin 0) v0 of
           (Inl e, w1, evs) \<Rightarrow> (Inl e, w1, ModelEval # ModelTo # evs)
         | (Inr (total_loss, v), w1, evs) \<Rightarrow>
             (case py_div_len total_loss (length data_loader) of
                Inl e \<Rightarrow> (Inl e, w1, ModelEval # ModelTo # evs)
              | Inr mean_loss \<Rightarrow>
                  (Inr (mean_loss, tensor_div (correct v) (total v), dice v), w1,
                   ModelEval # ModelTo # evs)))"

section \<open>The epoch loop\<close>

text \<open>
  \<open>for epoch in range(epochs): ...\<close> with the \<open>break\<close> at the end of the body: the body
  returns whether it breaks, and an exception ends the loop.
\<close>

fun epoch_loop ::
  "(nat \<Rightarrow> 'w \<Rightarrow> 'v \<Rightarrow> (py_error + bool \<times> 'v) \<times> 'w \<times> event list) \<Rightarrow> nat list \<Rightarrow> 'w \<Rightarrow> 'v
     \<Rightarrow> (py_error + 'v) \<times> 'w \<times> event list" where
  "epoch_loop body [] w v = (Inr v, w, [])"
| "epoch_loop body (epoch # rest) w v =
     (case body epoch w v of
        (Inl e, w1, evs) \<Rightarrow> (Inl e, w1, evs)
      | (Inr (stop, v1), w1, evs) \<Rightarrow>
          if stop then (Inr v1, w1, evs)
          else (case epoch_loop body rest w1 v1 of (r, w2, evs2) \<Rightarrow> (r, w2, evs @ evs2)))"

section \<open>train\<close>

fun train_batches ::
  "('w, 'x, 'y, 'o) torch \<Rightarrow> ('x \<times> 'y) list \<Rightarrow> 'w \<Rightarrow> pyfloat \<Rightarrow> pyfloat \<times> 'w \<times> event list" where
  "train_batches T [] w train_loss = (train_loss, w, [])"
| "train_batches T ((x, y) # rest) w train_loss =
     (let x1 = x_to T x;
          y1 = y_to T y;
          w1 = zero_grad T w;
          (output, w2) = forward T True w1 x1;
          batch_loss = criterion T output y1;
          w3 = backward T output y1 w2;
          w4 = opt_step T w3
      in case train_batches T rest w4 (fadd train_loss batch_loss) of
           (r, w5, evs) \<Rightarrow>
             (r, w5, ZeroGrad # Forward True # Criterion True batch_loss # Backward # OptStep # evs))"

text \<open>
  The local variables of \<open>train\<close> that live across epochs. \<open>early_stopping\<close> is bound
  exactly when \<open>do_early_stopping\<close> is true, and \<open>do_early_stopping\<close> is never assigned,
  so the tests of \<open>do_early_stopping\<close> in the loop are tests of \<open>early_stopping\<close> being bound.
\<close>

record train_vars =
  epoch_train_errors :: "pyfloat list"
  epoch_val_errors :: "pyfloat list"
  early_stopping :: "early_stopping option"

text \<open>
  One pass of the body of the epoch loop. \<open>log_fn\<close> says that the callback is not \<open>None\<close>;
  its call is the event \<open>LogFn\<close>.
\<close>

definition train_epoch ::
  "('w, 'x, 'y, 'o) torch \<Rightarrow> ('x \<times> 'y) list \<Rightarrow> ('x \<times> 'y) list \<Rightarrow> bool \<Rightarrow> int \<Rightarrow> nat \<Rightarrow> 'w
     \<Rightarrow> train_vars \<Rightarrow> (py_error + bool \<times> train_vars) \<times> 'w \<times> event list" where
  "train_epoch T train_loader val_loader log_fn log_every epoch w v =
     (case train_batches T train_loader (model_train T w) (Fin 0) of
        (train_loss0, w1, evs1) \<Rightarrow>
          (case py_div_len train_loss0 (length train_loader) of
             Inl e \<Rightarrow> (Inl e, w1, ModelTrain # evs1)
           | Inr train_loss \<Rightarrow>
               (let v1 = v\<lparr>epoch_train_errors := epoch_train_errors v @ [train_loss]\<rparr>
                in case evaluate T val_loader w1 of
                     (Inl e, w2, evs2) \<Rightarrow> (Inl e, w2, ModelTrain # evs1 @ evs2)
                   | (Inr val_loss, w2, evs2) \<Rightarrow>
                       (let v2 = v1\<lparr>epoch_val_errors := epoch_val_errors v1 @ [val_loss]\<rparr>;
                            v3 = v2\<lparr>early_stopping :=
                                     map_option (\<lambda>e. EarlyStopping_call e val_loss) (early_stopping v2)\<rparr>
                        in case (if log_fn then log_due (int epoch) log_every else Inr False) of
                             Inl e \<Rightarrow> (Inl e, w2, ModelTrain # evs1 @ evs2)
                           | Inr due \<Rightarrow>
                               (let evs3 = (if due then [LogFn (int epoch) train_loss val_loss] else [])
                                in case early_stopping v3 of
                                     None \<Rightarrow> (Inr (False, v3), w2, ModelTrain # evs1 @ evs2 @ evs3)
                                   | Some e \<Rightarrow>
                                       if early_stop e
                                       then (Inr (True, v3), w2,
                                             ModelTrain # evs1 @ evs2 @ evs3
                                               @ [PrintStop (int epoch) (best_score e)])
                                       else (Inr (False, v3), w2,
                                             ModelTrain # evs1 @ evs2 @ evs3))))))"

definition train ::
  "('w, 'x, 'y, 'o) torch \<Rightarrow> ('x \<times> 'y) list \<Rightarrow> ('x \<times> 'y) list \<Rightarrow> bool \<Rightarrow> int \<Rightarrow> int \<Rightarrow> bool
     \<Rightarrow> int \<Rightarrow> 'w \<Rightarrow> (py_error + pyfloat list \<times> pyfloat list) \<times> 'w \<times> event list" where
  "train T train_loader val_loader do_early_stopping patience0 epochs log_fn log_every w =
     (let v0 = \<lparr>epoch_train_errors = [], epoch_val_errors = [],
                early_stopping =
                  (if do_early_stopping then Some (EarlyStopping_init patience0) else None)\<rparr>
      in case epoch_loop (train_epoch T train_loader val_loader log_fn log_every)
                [0..<nat epochs] w v0 of
           (Inl e, w1, evs) \<Rightarrow> (Inl e, w1, evs)
         | (Inr v, w1, evs) \<Rightarrow> (Inr (epoch_train_errors v, epoch_val_errors v), w1, evs))"

section \<open>train_unet and train_unet_with_scheduler\<close>

text \<open>
  The batch loop of \<open>train_unet_with_scheduler\<close>; \<open>scheduler\<close> says that the scheduler is
  not \<open>None\<close>. The accumulators are \<open>train_loss\<close>, \<open>train_correct_num\<close> and \<open>train_total\<close>
  (\<open>train_cost_acum\<close> is never used).
\<close>

fun unet_train_batches ::
  "('w, 'x, 'y, 'o) torch \<Rightarrow> bool \<Rightarrow> ('x \<times> 'y) list \<Rightarrow> 'w \<Rightarrow> pyfloat \<times> int \<times> int
     \<Rightarrow> (py_error + pyfloat \<times> int \<times> int) \<times> 'w \<times> event list" where
  "unet_train_batches T scheduler [] w acc = (Inr acc, w, [])"
| "unet_train_batches T scheduler ((x, y) # rest) w (train_loss, train_correct_num, train_total) =
     (let x1 = x_to T x;
          y1 = y_to T y;
          (output, w1) = forward T True w x1;
          batch_loss = criterion T output y1;
          w2 = zero_grad T w1;
          w3 = backward T output y1 w2;
          w4 = opt_step T w3;
          w5 = (if scheduler then sched_step T batch_loss w4 else w4);
          evs0 = [Forward True, Criterion True batch_loss, ZeroGrad, Backward, OptStep]
                   @ (if scheduler then [SchedStep batch_loss] else []);
          train_predictions = argmax T output
      in if length train_predictions \<noteq> length (labels T y1)
         then (Inl RuntimeError, w5, evs0)
         else case unet_train_batches T scheduler rest w5
                     (fadd train_loss batch_loss,
                      train_correct_num + count_eq train_predictions (labels T y1),
                      train_total + int (length train_predictions)) of
                (r, w6, evs) \<Rightarrow> (r, w6, evs0 @ evs))"

record unet_train_vars = train_vars +
  epoch_dice_values :: "pyfloat list"
  epoc_acc :: "pyfloat list"

definition unet_train_epoch ::
  "('w, 'x, 'y, 'o) torch \<Rightarrow> bool \<Rightarrow> ('x \<times> 'y) list \<Rightarrow> ('x \<times> 'y) list \<Rightarrow> bool \<Rightarrow> int \<Rightarrow> nat \<Rightarrow> 'w
     \<Rightarrow> unet_train_vars \<Rightarrow> (py_error + bool \<times> unet_train_vars) \<times> 'w \<times> event list" where
  "unet_train_epoch T scheduler train_loader val_loader log_fn log_every epoch w v =
     (case unet_train_batches T scheduler train_loader (model_train T w) (Fin 0, 0, 0) of
        (Inl e, w1, evs1) \<Rightarrow> (Inl e, w1, ModelTrain # evs1)
      | (Inr (train_loss0, train_correct_num, train_total), w1, evs1) \<Rightarrow>
          (case py_div_len train_loss0 (length train_loader) of
             Inl e \<Rightarrow> (Inl e, w1, ModelTrain # evs1)
           | Inr train_loss \<Rightarrow>
               (let v1 = v\<lparr>epoch_train_errors := epoch_train_errors v @ [train_loss]\<rparr>;
                    train_acc = tensor_div train_correct_num train_total;
                    v2 = v1\<lparr>epoc_acc := epoc_acc v1 @ [train_acc]\<rparr>
                in case evaluate_unet T val_loader w1 of
                     (Inl e, w2, evs2) \<Rightarrow> (Inl e, w2, ModelTrain # evs1 @ evs2)
                   | (Inr (val_loss, accuracy, dice_value), w2, evs2) \<Rightarrow>
                       (let v3 = v2\<lparr>epoch_val_errors := epoch_val_errors v2 @ [val_loss]\<rparr>;
                            v4 = v3\<lparr>epoch_dice_values := epoch_dice_values v3 @ [dice_value]\<rparr>;
                            called = map_option (\<lambda>e. EarlyStoppingForUnet_call e dice_value)
                                       (early_stopping v4);
                            v5 = v4\<lparr>early_stopping := map_option fst called\<rparr>;
                            evs3 = (case called of None \<Rightarrow> [] | Some (e, out) \<Rightarrow> out)
                        in case (if log_fn then log_due (int epoch) log_every else Inr False) of
                             Inl e \<Rightarrow> (Inl e, w2, ModelTrain # evs1 @ evs2 @ evs3)
                           | Inr due \<Rightarrow>
                               (let evs4 = (if due
                                            then [LogFnUnet (int epoch) train_loss val_loss
                                                    accuracy dice_value]
                                            else [])
                                in case early_stopping v5 of
                                     None \<Rightarrow>
                                       (Inr (False, v5), w2, ModelTrain # evs1 @ evs2 @ evs3 @ evs4)
                                   | Some e \<Rightarrow>
                                       if early_stop e
                                       then (Inr (True, v5), w2,
                                             ModelTrain # evs1 @ evs2 @ evs3 @ evs4
                                               @ [PrintStop (int epoch) (best_score e)])
                                       else (Inr (False, v5), w2,
                                             ModelTrain # evs1 @ evs2 @ evs3 @ evs4))))))"

definition train_unet_with_scheduler ::
  "('w, 'x, 'y, 'o) torch \<Rightarrow> bool \<Rightarrow> ('x \<times> 'y) list \<Rightarrow> ('x \<times> 'y) list \<Rightarrow> bool \<Rightarrow> int \<Rightarrow> int
     \<Rightarrow> bool \<Rightarrow> int \<Rightarrow> 'w
     \<Rightarrow> (py_error + pyfloat list \<times> pyfloat list \<times> pyfloat list) \<times> 'w \<times> event list" where
  "train_unet_with_scheduler T scheduler train_loader val_loader do_early_stopping patience0
       epochs log_fn log_every w =
     (let v0 = \<lparr>epoch_train_errors = [], epoch_val_errors = [],
                early_stopping =
                  (if do_early_stopping then Some (EarlyStoppingForUnet_init patience0)
                   else None),
                epoch_dice_values = [], epoc_acc = []\<rparr>
      in case epoch_loop (unet_train_epoch T scheduler train_loader val_loader log_fn log_every)
                [0..<nat epochs] w v0 of
           (Inl e, w1, evs) \<Rightarrow> (Inl e, w1, evs)
         | (Inr v, w1, evs) \<Rightarrow>
             (Inr (epoch_train_errors v, epoch_val_errors v, epoch_dice_values v), w1, evs))"

text \<open>
  \<open>train_unet\<close> is the text of \<open>train_unet_with_scheduler\<close> without the parameter
  \<open>scheduler\<close> and without the two lines that notify it.
\<close>

definition train_unet ::
  "('w, 'x, 'y, 'o) torch \<Rightarrow> ('x \<times> 'y) list \<Rightarrow> ('x \<times> 'y) list \<Rightarrow> bool \<Rightarrow> int \<Rightarrow> int \<Rightarrow> bool
     \<Rightarrow> int \<Rightarrow> 'w
     \<Rightarrow> (py_error + pyfloat list \<times> pyfloat list \<times> pyfloat list) \<times> 'w \<times> event list" where
  "train_unet T train_loader val_loader do_early_stopping patience0 epochs log_fn log_every w =
     train_unet_with_scheduler T False train_loader val_loader do_early_stopping patience0
       epochs log_fn log_every w"

section \<open>Reading the events\<close>

text \<open>The events an evaluation may cause: no gradient is tracked, no optimizer is called.\<close>

definition inference_event :: "event \<Rightarrow> bool" where
  "inference_event e =
     (case e of
        ModelEval \<Rightarrow> True
      | ModelTo \<Rightarrow> True
      | Forward g \<Rightarrow> \<not> g
      | Criterion g l \<Rightarrow> \<not> g
      | _ \<Rightarrow> False)"

text \<open>The epoch that the message of an early stop names, if a stop was printed.\<close>

primrec stop_epoch :: "event list \<Rightarrow> int option" where
  "stop_epoch [] = None"
| "stop_epoch (e # r) = (case e of PrintStop k b \<Rightarrow> Some k | _ \<Rightarrow> stop_epoch r)"

text \<open>The losses of the training batches.\<close>

definition train_loss_of :: "event \<Rightarrow> pyfloat list" where
  "train_loss_of e = (case e of Criterion g l \<Rightarrow> if g then [l] else [] | _ \<Rightarrow> [])"

definition train_losses :: "event list \<Rightarrow> pyfloat list" where
  "train_losses evs = concat (map train_loss_of evs)"

section \<open>A framework that records the calls it receives\<close>

text \<open>
  The calls that change the state of the framework. \<open>CallBackward l\<close> is \<open>.backward()\<close>
  on a loss whose value is \<open>l\<close>, and \<open>CallSchedStep l\<close> is \<open>scheduler.step(l)\<close>.
\<close>

datatype call =
    CallEval
  | CallTrain
  | CallTo
  | CallForward bool
  | CallZeroGrad
  | CallBackward pyfloat
  | CallOptStep
  | CallSchedStep pyfloat

text \<open>
  \<open>recording T\<close> is the framework \<open>T\<close> with a state that also holds, in order, every call
  that was applied to it: each operation does to the state of \<open>T\<close> what \<open>T\<close> does, and
  appends its own call. What a function of \<open>utils.py\<close> did to the framework can then be read
  from the state it leaves.
\<close>

definition recording :: "('w, 'x, 'y, 'o) torch \<Rightarrow> ('w \<times> call list, 'x, 'y, 'o) torch" where
  "recording T =
     \<lparr>model_eval = (\<lambda>(w, cs). (model_eval T w, cs @ [CallEval])),
      model_train = (\<lambda>(w, cs). (model_train T w, cs @ [CallTrain])),
      model_to = (\<lambda>(w, cs). (model_to T w, cs @ [CallTo])),
      x_to = x_to T,
      y_to = y_to T,
      forward = (\<lambda>g (w, cs) x.
                   case forward T g w x of (out, w1) \<Rightarrow> (out, (w1, cs @ [CallForward g]))),
      criterion = criterion T,
      backward = (\<lambda>out y (w, cs).
                    (backward T out y w, cs @ [CallBackward (criterion T out y)])),
      zero_grad = (\<lambda>(w, cs). (zero_grad T w, cs @ [CallZeroGrad])),
      opt_step = (\<lambda>(w, cs). (opt_step T w, cs @ [CallOptStep])),
      sched_step = (\<lambda>l (w, cs). (sched_step T l w, cs @ [CallSchedStep l])),
      argmax = argmax T,
      labels = labels T\<rparr>"

text \<open>The values the scheduler was notified with, and the losses that were backpropagated.\<close>

definition notified_of :: "call \<Rightarrow> pyfloat list" where
  "notified_of c = (case c of CallSchedStep l \<Rightarrow> [l] | _ \<Rightarrow> [])"

definition notified :: "call list \<Rightarrow> pyfloat list" where
  "notified cs = concat (map notified_of cs)"

definition backward_loss_of :: "call \<Rightarrow> pyfloat list" where
  "backward_loss_of c = (case c of CallBackward l \<Rightarrow> [l] | _ \<Rightarrow> [])"

definition backward_losses :: "call list \<Rightarrow> pyfloat list" where
  "backward_losses cs = concat (map backward_loss_of cs)"

text \<open>
  The order of the calls for one training batch of \<open>train_unet_with_scheduler\<close>: forward
  pass with gradients, \<open>zero_grad\<close>, \<open>backward\<close> of the loss \<open>l\<close>, one optimizer step,
  and then one notification of the scheduler with \<open>l\<close>. Outside a batch (\<open>Idle\<close>) only
  \<open>model.train()\<close>, \<open>model.eval()\<close>, \<open>model.to(device)\<close> and forward passes without
  gradients may happen.
\<close>

datatype phase = Idle | Forwarded | Zeroed | Backwarded pyfloat | Stepped pyfloat

definition next_phase :: "phase \<Rightarrow> call \<Rightarrow> phase option" where
  "next_phase ph c =
     (case ph of
        Idle \<Rightarrow>
          (case c of
             CallForward g \<Rightarrow> if g then Some Forwarded else Some Idle
           | CallEval \<Rightarrow> Some Idle
           | CallTrain \<Rightarrow> Some Idle
           | CallTo \<Rightarrow> Some Idle
           | _ \<Rightarrow> None)
      | Forwarded \<Rightarrow> (case c of CallZeroGrad \<Rightarrow> Some Zeroed | _ \<Rightarrow> None)
      | Zeroed \<Rightarrow> (case c of CallBackward l \<Rightarrow> Some (Backwarded l) | _ \<Rightarrow> None)
      | Backwarded l \<Rightarrow> (case c of CallOptStep \<Rightarrow> Some (Stepped l) | _ \<Rightarrow> None)
      | Stepped l \<Rightarrow>
          (case c of CallSchedStep l' \<Rightarrow> if l' = l then Some Idle else None | _ \<Rightarrow> None))"

primrec run_protocol :: "phase \<Rightarrow> call list \<Rightarrow> phase option" where
  "run_protocol ph [] = Some ph"
| "run_protocol ph (c # r) =
     (case next_phase ph c of None \<Rightarrow> None | Some ph' \<Rightarrow> run_protocol ph' r)"

definition notifies_each_batch :: "call list \<Rightarrow> bool" where
  "notifies_each_batch cs = (run_protocol Idle cs = Some Idle)"

section \<open>A small framework to run the functions on\<close>

text \<open>
  The state is the number \<open>n\<close> of optimizer steps taken (standing for the parameters)
  and the mode of the model; the model subtracts \<open>n\<close> from every element of its input,
  the prediction is the output itself, and the loss function is \<open>f\<close>.
\<close>

definition toy ::
  "(int list \<Rightarrow> int list \<Rightarrow> pyfloat) \<Rightarrow> (nat \<times> bool, int list, int list, int list) torch" where
  "toy f =
     \<lparr>model_eval = (\<lambda>(n, m). (n, False)), model_train = (\<lambda>(n, m). (n, True)), model_to = id,
      x_to = id, y_to = id, forward = (\<lambda>g (n, m) x. (map (\<lambda>v. v - int n) x, (n, m))),
      criterion = f, backward = (\<lambda>out y w. w), zero_grad = id,
      opt_step = (\<lambda>(n, m). (Suc n, m)), sched_step = (\<lambda>l w. w), argmax = id, labels = id\<rparr>"

text \<open>A loss that grows with every optimizer step, for a run that stops early.\<close>

definition growing_loss :: "int list \<Rightarrow> int list \<Rightarrow> pyfloat" where
  "growing_loss out y = Fin (of_int (sum_list y - sum_list out))"

section \<open>The statistics of a full pass\<close>

text \<open>
  What an evaluation pass over all batches is described to return, in the words of the
  description of \<open>evaluate_unet\<close>: "pixel-wise accuracy = (correct pixels)/(total
  pixels), and the Dice coefficient = 2*intersection / (union-sum + eps) where
  intersection and union-sum are accumulated across all batches". The argument lists, for
  each batch, the predictions and the targets.
\<close>

definition full_pass_accuracy :: "(int list \<times> int list) list \<Rightarrow> pyfloat" where
  "full_pass_accuracy pts =
     tensor_div (sum_list (map (\<lambda>(p, t). count_eq p t) pts))
       (sum_list (map (\<lambda>(p, t). int (length p)) pts))"

definition full_pass_dice :: "(int list \<times> int list) list \<Rightarrow> pyfloat" where
  "full_pass_dice pts =
     dice_of (sum_list (map (\<lambda>(p, t). sum_prod p t) pts))
       (sum_list (map (\<lambda>(p, t). sum_plus p t) pts))"

section \<open>The rounding function\<close>

text \<open>
  \<open>fl_round\<close> rounds to nearest: a finite result is within half a unit in the last place
  of the exact value, and a value that the format represents is returned unchanged.
\<close>

lemma pow2_pos: "0 < pow2 k"
  by (simp add: pow2_def)

lemma round_half_even_nearest: "\<bar>of_int (round_half_even q) - q\<bar> \<le> 1 / 2"
proof -
  have "of_int \<lfloor>q\<rfloor> \<le> q" "q < of_int \<lfloor>q\<rfloor> + 1" by linarith+
  then show ?thesis
    by (auto simp: round_half_even_def Let_def)
qed

lemma bitlen_ge1: "0 < n \<Longrightarrow> 1 \<le> bitlen n"
  using bitlen_bounds [of n] bitlen_nonneg [of n]
  by (cases "bitlen n = 0") auto

lemma ilog2_bounds:
  assumes "0 < q"
  shows "pow2 (ilog2 q) \<le> q \<and> q < 2 * pow2 (ilog2 q)"
proof (cases "1 \<le> q")
  case True
  define n where "n = \<lfloor>q\<rfloor>"
  define k where "k = bitlen n"
  from True have n: "0 < n" by (simp add: n_def)
  from bitlen_ge1 [OF n] have k: "1 \<le> k" by (simp add: k_def)
  from bitlen_bounds [OF n] have b: "2 ^ nat (k - 1) \<le> n" "n < 2 ^ nat k" by (simp_all add: k_def)
  have q: "of_int n \<le> q" "q < of_int n + 1" by (simp_all add: n_def) linarith
  from k have sk: "nat k = Suc (nat (k - 1))" by simp
  from b(1) have "(2::rat) ^ nat (k - 1) \<le> of_int n" by simp
  with q have lo: "(2::rat) ^ nat (k - 1) \<le> q" by linarith
  from b(2) have "n + 1 \<le> 2 ^ nat k" by simp
  then have "(of_int (n + 1) :: rat) \<le> 2 ^ nat k"
    by (simp only: of_int_le_numeral_power_cancel_iff)
  then have "(of_int n :: rat) + 1 \<le> 2 ^ nat k" by simp
  moreover have "(2::rat) ^ nat k = 2 * 2 ^ nat (k - 1)"
    by (subst sk) simp
  ultimately have hi: "q < 2 * (2::rat) ^ nat (k - 1)" using q by linarith
  from True k lo hi show ?thesis
    by (simp add: ilog2_def pow2_def n_def [symmetric] k_def [symmetric])
next
  case False
  define m where "m = \<lceil>1 / q\<rceil> - 1"
  define k where "k = bitlen m"
  from False assms have "1 < 1 / q" by simp
  then have m: "0 < m" unfolding m_def by linarith
  from bitlen_ge1 [OF m] have k: "1 \<le> k" by (simp add: k_def)
  from bitlen_bounds [OF m] have b: "2 ^ nat (k - 1) \<le> m" "m < 2 ^ nat k" by (simp_all add: k_def)
  have q: "of_int m < 1 / q" "1 / q \<le> of_int m + 1" unfolding m_def by linarith+
  from k have sk: "nat k = Suc (nat (k - 1))" by simp
  have p: "(2::rat) ^ nat k = 2 * 2 ^ nat (k - 1)"
    by (subst sk) simp
  from b(2) have "m + 1 \<le> 2 ^ nat k" by simp
  then have "(of_int (m + 1) :: rat) \<le> 2 ^ nat k"
    by (simp only: of_int_le_numeral_power_cancel_iff)
  then have "(of_int m :: rat) + 1 \<le> 2 ^ nat k" by simp
  with q have "1 / q \<le> 2 ^ nat k" by linarith
  with assms have lo: "1 / 2 ^ nat k \<le> q"
    by (simp add: field_simps)
  from b(1) have "(2::rat) ^ nat (k - 1) \<le> of_int m" by simp
  with q have "2 ^ nat (k - 1) < 1 / q" by linarith
  with assms have "q * 2 ^ nat (k - 1) < 1" by (simp add: field_simps)
  with p have hi: "q < 2 * (1 / 2 ^ nat k)" by (simp add: field_simps)
  from False k lo hi show ?thesis
    by (simp add: ilog2_def pow2_def m_def [symmetric] k_def [symmetric])
qed

lemma fl_round_nearest:
  assumes "fl_round p emin emax q = Fin r"
  shows "\<bar>r - q\<bar> \<le> pow2 (max (ilog2 \<bar>q\<bar> - (int p - 1)) emin) / 2"
proof (cases "q = 0")
  case True
  with assms show ?thesis using pow2_pos [of "max (ilog2 \<bar>q\<bar> - (int p - 1)) emin"]
    by (simp add: fl_round_def)
next
  case False
  define e where "e = max (ilog2 \<bar>q\<bar> - (int p - 1)) emin"
  define m where "m = round_half_even (\<bar>q\<bar> / pow2 e)"
  from assms False have r: "r = (if 0 < q then of_int m * pow2 e else - (of_int m * pow2 e))"
    by (auto simp: fl_round_def Let_def e_def m_def split: if_splits)
  have "\<bar>of_int m - \<bar>q\<bar> / pow2 e\<bar> \<le> 1 / 2"
    unfolding m_def by (rule round_half_even_nearest)
  then have "\<bar>of_int m - \<bar>q\<bar> / pow2 e\<bar> * pow2 e \<le> 1 / 2 * pow2 e"
    using pow2_pos [of e] by (simp add: mult_right_mono)
  moreover have "\<bar>of_int m - \<bar>q\<bar> / pow2 e\<bar> * pow2 e = \<bar>(of_int m - \<bar>q\<bar> / pow2 e) * pow2 e\<bar>"
    using pow2_pos [of e] by (simp add: abs_mult)
  moreover have "(of_int m - \<bar>q\<bar> / pow2 e) * pow2 e = of_int m * pow2 e - \<bar>q\<bar>"
    using pow2_pos [of e] by (simp add: field_simps)
  ultimately have "\<bar>of_int m * pow2 e - \<bar>q\<bar>\<bar> \<le> pow2 e / 2" by simp
  with r False show ?thesis unfolding e_def [symmetric]
    by (auto simp: abs_if split: if_splits)
qed

lemma pow2_powi: "pow2 k = 2 powi k"
  by (simp add: pow2_def power_int_def field_simps)

lemma pow2_add: "pow2 (j + k) = pow2 j * pow2 k"
  by (simp add: pow2_powi power_int_add)

lemma pow2_less_iff: "pow2 j < pow2 k \<longleftrightarrow> j < k"
proof
  assume "pow2 j < pow2 k"
  show "j < k"
  proof (rule ccontr)
    assume "\<not> j < k"
    then have "k \<le> j" by simp
    then have "pow2 k \<le> pow2 j" unfolding pow2_powi by (intro power_int_increasing) simp_all
    with \<open>pow2 j < pow2 k\<close> show False by simp
  qed
next
  assume "j < k"
  then show "pow2 j < pow2 k" unfolding pow2_powi by (intro power_int_strict_increasing) simp_all
qed

lemma round_half_even_of_int: "round_half_even (of_int n) = n"
  by (simp add: round_half_even_def)

lemma ilog2_less:
  assumes "0 < a" and "a < pow2 k"
  shows "ilog2 a < k"
proof -
  from ilog2_bounds [OF assms(1)] assms(2) have "pow2 (ilog2 a) < pow2 k" by simp
  then show ?thesis by (simp add: pow2_less_iff)
qed

lemma fl_round_exact:
  assumes q: "q = of_int m * pow2 e'" and m: "\<bar>m\<bar> < 2 ^ p" and e': "emin \<le> e'"
    and fin: "\<bar>q\<bar> < pow2 emax"
  shows "fl_round p emin emax q = Fin q"
proof (cases "q = 0")
  case True
  then show ?thesis by (simp add: fl_round_def)
next
  case False
  define a where "a = \<bar>q\<bar>"
  define e where "e = max (ilog2 a - (int p - 1)) emin"
  from False have a: "0 < a" by (simp add: a_def)
  have am: "a = of_int \<bar>m\<bar> * pow2 e'"
    using pow2_pos [of e'] by (simp add: a_def q abs_mult)
  from m have "(of_int \<bar>m\<bar> :: rat) < 2 ^ p"
    by (metis of_int_less_numeral_power_cancel_iff)
  then have "a < 2 ^ p * pow2 e'"
    unfolding am using pow2_pos [of e'] by (simp add: mult_strict_right_mono)
  also have "\<dots> = pow2 (int p + e')" by (simp add: pow2_add) (simp add: pow2_def)
  finally have "ilog2 a < int p + e'" by (rule ilog2_less [OF a])
  with e' have le: "e \<le> e'" by (simp add: e_def)
  define N where "N = \<bar>m\<bar> * 2 ^ nat (e' - e)"
  have "pow2 e' = pow2 (e' - e) * pow2 e" by (simp add: pow2_add [symmetric])
  moreover from le have "pow2 (e' - e) = 2 ^ nat (e' - e)" by (simp add: pow2_def)
  ultimately have qe: "a / pow2 e = of_int N"
    using pow2_pos [of e] by (simp add: am N_def)
  have "a = of_int N * pow2 e"
    using qe pow2_pos [of e] by (simp add: divide_eq_eq)
  with qe have r: "of_int (round_half_even (a / pow2 e)) * pow2 e = a"
    by (simp add: round_half_even_of_int)
  from fin have no: "\<not> emax \<le> ilog2 a"
    using ilog2_less [OF a, of emax] by (simp add: a_def)
  have "fl_round p emin emax q
          = (if emax \<le> ilog2 (of_int (round_half_even (a / pow2 e)) * pow2 e)
             then (if 0 < q then PInf else NInf)
             else Fin (if 0 < q then of_int (round_half_even (a / pow2 e)) * pow2 e
                       else - (of_int (round_half_even (a / pow2 e)) * pow2 e)))"
    using False by (simp only: fl_round_def Let_def a_def e_def if_False)
  also have "\<dots> = Fin (if 0 < q then a else - a)"
    using no by (simp only: r if_False)
  also have "(if 0 < q then a else - a) = q" by (simp add: a_def)
  finally show ?thesis .
qed

lemma double_of_int_exact:
  assumes n: "\<bar>n\<bar> < 2 ^ 53"
  shows "double (of_int n) = Fin (of_int n)"
proof -
  have "(of_int \<bar>n\<bar> :: rat) < 2 ^ 53" using n by (metis of_int_less_numeral_power_cancel_iff)
  also have "(2::rat) ^ 53 = pow2 53" by (simp add: pow2_def)
  also have "pow2 53 < pow2 1024" by (simp add: pow2_less_iff)
  finally have fin: "\<bar>of_int n :: rat\<bar> < pow2 1024" by simp
  have q: "(of_int n :: rat) = of_int n * pow2 0" by (simp add: pow2_def)
  show ?thesis
    unfolding double_def
    by (rule fl_round_exact [OF q n _ fin]) simp
qed

lemma double_of_nat_exact: "n < 2 ^ 53 \<Longrightarrow> double (of_nat n) = Fin (of_nat n)"
  using double_of_int_exact [of "int n"] by simp

lemma float32_value_sums_exact:
  assumes c: "c = of_int m * pow2 e" and m: "\<bar>m\<bar> < 2 ^ 24" and e: "- 149 \<le> e" "e \<le> 104"
    and k: "k < 2 ^ 29"
  shows "double (of_nat k * c) = Fin (of_nat k * c)"
proof -
  have q: "of_nat k * c = of_int (int k * m) * pow2 e" by (simp add: c)
  have "\<bar>int k * m\<bar> = int k * \<bar>m\<bar>" by (simp add: abs_mult)
  also have "\<dots> \<le> int k * 2 ^ 24" using m by (intro mult_left_mono) simp_all
  also have "\<dots> < 2 ^ 29 * 2 ^ 24" using k by (intro mult_strict_right_mono) simp_all
  finally have km: "\<bar>int k * m\<bar> < 2 ^ 53" by simp
  then have "(of_int \<bar>int k * m\<bar> :: rat) < 2 ^ 53"
    by (metis of_int_less_numeral_power_cancel_iff)
  then have "(of_int \<bar>int k * m\<bar> :: rat) * pow2 e < 2 ^ 53 * pow2 e"
    using pow2_pos [of e] by (simp only: mult_less_cancel_right_pos)
  also have "(2::rat) ^ 53 * pow2 e = pow2 (53 + e)" by (simp add: pow2_add) (simp add: pow2_def)
  also have "pow2 (53 + e) < pow2 1024" using e by (simp add: pow2_less_iff)
  finally have "\<bar>of_nat k * c\<bar> < pow2 1024"
    using pow2_pos [of e] by (simp add: q abs_mult)
  with q km e show ?thesis
    unfolding double_def by (intro fl_round_exact [where m = "int k * m" and e' = e]) simp_all
qed

section \<open>Rounded values\<close>

text \<open>The roundings that the runs below need, each computed from the definitions.\<close>

lemma double_0: "double 0 = Fin 0"
  by (simp add: double_def fl_round_def)

lemma float32_0: "float32 0 = Fin 0"
  by (simp add: float32_def fl_round_def)

lemma double_1: "double 1 = Fin 1"
  by code_simp

lemma double_2: "double 2 = Fin 2"
  by code_simp

lemma double_3: "double 3 = Fin 3"
  by code_simp

lemma float32_1: "float32 1 = Fin 1"
  by code_simp

lemma float32_2: "float32 2 = Fin 2"
  by code_simp

lemma tensor_div_2_4: "tensor_div 2 4 = Fin (1 / 2)"
  by code_simp

lemma dice_of_0_1: "dice_of 0 1 = Fin 0"
  by code_simp

lemma dice_of_0_2: "dice_of 0 2 = Fin 0"
  by code_simp

lemma dice_of_1_2: "dice_of 1 2 = Fin 1"
  by code_simp

lemma dice_of_2_4: "dice_of 2 4 = Fin 1"
  by code_simp

lemma dice_of_2_6: "dice_of 2 6 = Fin (11184811 / 16777216)"
  by code_simp

text \<open>The Python floats \<open>0.1\<close>, \<open>0.2\<close> and \<open>0.3\<close>.\<close>

lemma double_tenth: "double (1 / 10) = Fin (3602879701896397 / 36028797018963968)"
  by code_simp

lemma double_two_tenths: "double (1 / 5) = Fin (3602879701896397 / 18014398509481984)"
  by code_simp

lemma double_three_tenths: "double (3 / 10) = Fin (5404319552844595 / 18014398509481984)"
  by code_simp

text \<open>\<open>0.1\<close> and \<open>0.1 + 0.1\<close> are floats; \<open>0.1 + 0.1 + 0.1\<close> and its third are rounded.\<close>

lemma double_tenth_again:
  "double (3602879701896397 / 36028797018963968) = Fin (3602879701896397 / 36028797018963968)"
  by code_simp

lemma double_fifth_again:
  "double (3602879701896397 / 18014398509481984) = Fin (3602879701896397 / 18014398509481984)"
  by code_simp

lemma double_sum_3:
  "double (10808639105689191 / 36028797018963968) = Fin (1351079888211149 / 4503599627370496)"
  by code_simp

lemma double_mean_3:
  "double (1351079888211149 / 13510798882111488) = Fin (7205759403792795 / 72057594037927936)"
  by code_simp

text \<open>\<open>0.1 + 0.2\<close> is 0.30000000000000004, not the float \<open>0.3\<close>.\<close>

lemma tenth_plus_two_tenths:
  "fadd (double (1 / 10)) (double (2 / 10)) = Fin (1351079888211149 / 4503599627370496)
   \<and> double (3 / 10) = Fin (5404319552844595 / 18014398509481984)
   \<and> fadd (double (1 / 10)) (double (2 / 10)) \<noteq> double (3 / 10)"
  by (simp add: fadd_def double_tenth double_two_tenths double_three_tenths double_sum_3)

lemma upt_5: "[0..<5] = [0, 1, 2, 3, 4]"
  by code_simp

section \<open>Properties of the early-stopping policies\<close>

lemmas es_defs = EarlyStopping_init_def EarlyStopping_call_def EarlyStoppingForUnet_init_def
  EarlyStoppingForUnet_call_def unet_call_def fgt_def Let_def

text \<open>
  C2, as stated, fails: with patience 2 and the scores 5, 4, 3, 3, 3 the stop flag of the
  loss-minimizing policy is still false after the fifth call.
\<close>

theorem C2_counterexample:
  "\<not> early_stop (last (calls EarlyStopping_call (EarlyStopping_init 2)
       [Fin 5, Fin 4, Fin 3, Fin 3, Fin 3]))"
  by (simp add: es_defs)

text \<open>
  C2, amended: a score equal to the best one is not greater than it, so it is recorded as
  the new best and resets the counter. With patience 2 the scores 5, 4, 3, 3, 3 leave the
  stop flag false after each of the five calls, with the counter at 0 and the best score 3
  at the end; the scores 5, 4, 3, 4, 4, whose last two are strictly worse than the best,
  set the flag exactly at the fifth call.
\<close>

theorem C2_loss_policy_ties:
  "map early_stop (calls EarlyStopping_call (EarlyStopping_init 2)
       [Fin 5, Fin 4, Fin 3, Fin 3, Fin 3]) = [False, False, False, False, False]
   \<and> last (calls EarlyStopping_call (EarlyStopping_init 2) [Fin 5, Fin 4, Fin 3, Fin 3, Fin 3])
       = \<lparr>patience = 2, counter = 0, best_score = Fin 3, val_loss_min = PInf, early_stop = False\<rparr>
   \<and> map early_stop (calls EarlyStopping_call (EarlyStopping_init 2)
       [Fin 5, Fin 4, Fin 3, Fin 4, Fin 4]) = [False, False, False, False, True]"
  by (simp add: es_defs)

text \<open>
  C3, as stated, fails: with patience 2 and the Dice scores 0.1, 0.3, 0.3, 0.3 the stop
  flag of the Dice-maximizing policy is still false after the fourth call.
\<close>

theorem C3_counterexample:
  "\<not> early_stop (last (calls unet_call (EarlyStoppingForUnet_init 2)
       [double (1 / 10), double (3 / 10), double (3 / 10), double (3 / 10)]))"
  by (simp add: es_defs double_tenth double_three_tenths)

text \<open>
  C3, amended: a Dice score equal to the best one is not less than it, so it is recorded
  as the new best and resets the counter. With patience 2 the scores 0.1, 0.3, 0.3, 0.3
  leave the stop flag false after each of the four calls; the scores 0.1, 0.3, 0.2, 0.2,
  whose last two are strictly below the best, set the flag exactly at the fourth call.
\<close>

theorem C3_dice_policy_ties:
  "map early_stop (calls unet_call (EarlyStoppingForUnet_init 2)
       [double (1 / 10), double (3 / 10), double (3 / 10), double (3 / 10)])
     = [False, False, False, False]
   \<and> map early_stop (calls unet_call (EarlyStoppingForUnet_init 2)
       [double (1 / 10), double (3 / 10), double (2 / 10), double (2 / 10)])
     = [False, False, False, True]"
  by (simp add: es_defs double_tenth double_two_tenths double_three_tenths)

lemma EarlyStopping_call_keeps_stop:
  "early_stop self \<Longrightarrow> early_stop (EarlyStopping_call self v)"
  by (simp add: EarlyStopping_call_def Let_def)

lemma unet_call_keeps_stop:
  "early_stop self \<Longrightarrow> early_stop (unet_call self v)"
  by (simp add: unet_call_def EarlyStoppingForUnet_call_def Let_def)

lemma foldl_keeps_stop:
  assumes step: "\<And>s v. early_stop s \<Longrightarrow> early_stop (f s v)"
  shows "early_stop s \<Longrightarrow> early_stop (foldl f s vs)"
  by (induction vs arbitrary: s) (simp_all add: step)

text \<open>
  C5: for both policies, any patience and any scores: if the stop flag is set after the
  calls for \<open>xs\<close>, it is set after any further calls \<open>ys\<close>, whatever their scores.
\<close>

theorem C5_stop_flag_stays_set:
  "(early_stop (foldl EarlyStopping_call (EarlyStopping_init p) xs)
      \<longrightarrow> early_stop (foldl EarlyStopping_call (EarlyStopping_init p) (xs @ ys)))
   \<and> (early_stop (foldl unet_call (EarlyStoppingForUnet_init p) xs)
      \<longrightarrow> early_stop (foldl unet_call (EarlyStoppingForUnet_init p) (xs @ ys)))"
  by (simp add: foldl_keeps_stop [OF EarlyStopping_call_keeps_stop]
      foldl_keeps_stop [OF unet_call_keeps_stop])

theorem C5_stop_flag_stays_set_witness:
  "early_stop (foldl EarlyStopping_call (EarlyStopping_init 1) [Fin 1, Fin 2])
   \<and> early_stop (foldl EarlyStopping_call (EarlyStopping_init 1) ([Fin 1, Fin 2] @ [Fin 0]))
   \<and> early_stop (foldl unet_call (EarlyStoppingForUnet_init 1) [Fin 2, Fin 1])
   \<and> early_stop (foldl unet_call (EarlyStoppingForUnet_init 1) ([Fin 2, Fin 1] @ [Fin 3]))"
proof -
  have a: "early_stop (foldl EarlyStopping_call (EarlyStopping_init 1) [Fin 1, Fin 2])"
    by (simp add: es_defs)
  have b: "early_stop (foldl unet_call (EarlyStoppingForUnet_init 1) [Fin 2, Fin 1])"
    by (simp add: es_defs)
  from a b C5_stop_flag_stays_set [of 1 "[Fin 1, Fin 2]" "[Fin 0]"]
    C5_stop_flag_stays_set [of 1 "[Fin 2, Fin 1]" "[Fin 3]"]
  show ?thesis by blast
qed

text \<open>
  C7, as stated, fails for the Dice variant: its initial best score is 0, so a first score
  below 0 counts as a non-improvement. With patience 1 the first call with the score -1
  sets the stop flag, and leaves the best score at 0.
\<close>

theorem C7_counterexample:
  "early_stop (unet_call (EarlyStoppingForUnet_init 1) (Fin (- 1)))
   \<and> counter (unet_call (EarlyStoppingForUnet_init 1) (Fin (- 1))) = 1
   \<and> best_score (unet_call (EarlyStoppingForUnet_init 1) (Fin (- 1))) = Fin 0"
  by (simp add: es_defs)

lemma not_fgt_PInf: "\<not> fgt s PInf"
  by (cases s) (simp_all add: fgt_def)

text \<open>
  C7, amended: the first call on a fresh loss-minimizing policy, with any score \<open>s\<close>
  (NaN and the infinities included), records \<open>s\<close> as the best score and leaves the counter
  at 0 and the stop flag unset. The first call on a fresh Dice-maximizing policy does so
  for every score \<open>s\<close> that is not less than 0.
\<close>

theorem C7_first_call_improves:
  "EarlyStopping_call (EarlyStopping_init p) s
     = \<lparr>patience = p, counter = 0, best_score = s, val_loss_min = PInf, early_stop = False\<rparr>
   \<and> (\<not> flt s (Fin 0) \<longrightarrow>
        unet_call (EarlyStoppingForUnet_init p) s
          = \<lparr>patience = p, counter = 0, best_score = s, val_loss_min = PInf, early_stop = False\<rparr>)"
  by (simp add: EarlyStopping_call_def EarlyStopping_init_def not_fgt_PInf
      unet_call_def EarlyStoppingForUnet_call_def EarlyStoppingForUnet_init_def)

theorem C7_first_call_improves_witness:
  "EarlyStopping_call (EarlyStopping_init 5) NaN
     = \<lparr>patience = 5, counter = 0, best_score = NaN, val_loss_min = PInf, early_stop = False\<rparr>
   \<and> \<not> flt (Fin (1 / 2)) (Fin 0)
   \<and> unet_call (EarlyStoppingForUnet_init 5) (Fin (1 / 2))
       = \<lparr>patience = 5, counter = 0, best_score = Fin (1 / 2), val_loss_min = PInf,
          early_stop = False\<rparr>"
  using C7_first_call_improves [of 5 NaN] C7_first_call_improves [of 5 "Fin (1 / 2)"]
  by simp

section \<open>Runs on the small framework\<close>

lemmas run_defs = toy_def growing_loss_def fadd_def py_div_len_def log_due_def Let_def
  EarlyStopping_init_def EarlyStopping_call_def EarlyStoppingForUnet_init_def
  EarlyStoppingForUnet_call_def fgt_def evaluate_def evaluate_unet_def train_epoch_def
  unet_train_epoch_def count_eq_def sum_prod_def sum_plus_def tensor_div_def
  double_0 double_1 double_2 float32_0 float32_1 float32_2 upt_5

lemma toy_train_run:
  "train (toy growing_loss) [([1], [1])] [([2], [1])] True 1 5 True 1 (0, True)
     = (Inr ([Fin 0, Fin 1], [Fin 0, Fin 1]), (2, False),
        [ModelTrain, ZeroGrad, Forward True, Criterion True (Fin 0), Backward, OptStep,
         ModelEval, Forward False, Criterion False (Fin 0), LogFn 0 (Fin 0) (Fin 0),
         ModelTrain, ZeroGrad, Forward True, Criterion True (Fin 1), Backward, OptStep,
         ModelEval, Forward False, Criterion False (Fin 1), LogFn 1 (Fin 1) (Fin 1),
         PrintStop 1 (Fin 0)])"
  by (simp add: train_def run_defs)

lemma toy_train_unet_run:
  "train_unet (toy growing_loss) [([1], [1])] [([2], [1])] True 1 5 True 1 (0, True)
     = (Inr ([Fin 0, Fin 1], [Fin 0, Fin 1], [Fin 1, Fin 0]), (2, False),
        [ModelTrain, Forward True, Criterion True (Fin 0), ZeroGrad, Backward, OptStep,
         ModelEval, ModelTo, Forward False, Criterion False (Fin 0), PrintBest (Fin 1),
         LogFnUnet 0 (Fin 0) (Fin 0) (Fin 1) (Fin 1),
         ModelTrain, Forward True, Criterion True (Fin 1), ZeroGrad, Backward, OptStep,
         ModelEval, ModelTo, Forward False, Criterion False (Fin 1), PrintCounter 1,
         LogFnUnet 1 (Fin 1) (Fin 1) (Fin 0) (Fin 0), PrintStop 1 (Fin 1)])"
  by (simp add: train_unet_def train_unet_with_scheduler_def run_defs dice_of_0_1 dice_of_1_2)

lemma toy_sched_run:
  "train_unet_with_scheduler (toy growing_loss) True [([1], [1])] [([2], [1])] True 1 5 True 1
       (0, True)
     = (Inr ([Fin 0, Fin 1], [Fin 0, Fin 1], [Fin 1, Fin 0]), (2, False),
        [ModelTrain, Forward True, Criterion True (Fin 0), ZeroGrad, Backward, OptStep,
         SchedStep (Fin 0),
         ModelEval, ModelTo, Forward False, Criterion False (Fin 0), PrintBest (Fin 1),
         LogFnUnet 0 (Fin 0) (Fin 0) (Fin 1) (Fin 1),
         ModelTrain, Forward True, Criterion True (Fin 1), ZeroGrad, Backward, OptStep,
         SchedStep (Fin 1),
         ModelEval, ModelTo, Forward False, Criterion False (Fin 1), PrintCounter 1,
         LogFnUnet 1 (Fin 1) (Fin 1) (Fin 0) (Fin 0), PrintStop 1 (Fin 1)])"
  by (simp add: train_unet_with_scheduler_def run_defs dice_of_0_1 dice_of_1_2)

lemma toy_unet_eval_1:
  "evaluate_unet (toy growing_loss) [([1, 1], [1, 1]), ([0, 1], [1, 0])] (0, True)
     = (Inr (Fin 0, Fin 0, Fin 0), (0, False),
        [ModelEval, ModelTo, Forward False, Criterion False (Fin 0),
         Forward False, Criterion False (Fin 0)])"
  by (simp add: run_defs dice_of_0_2)

lemma toy_unet_eval_2:
  "evaluate_unet (toy growing_loss) [([0, 1], [1, 0]), ([1, 1], [1, 1])] (0, True)
     = (Inr (Fin 0, Fin 1, Fin 1), (0, False),
        [ModelEval, ModelTo, Forward False, Criterion False (Fin 0),
         Forward False, Criterion False (Fin 0)])"
  by (simp add: run_defs dice_of_2_4)

lemma toy_tenth_run_3:
  "train (toy (\<lambda>out y. Fin (3602879701896397 / 36028797018963968)))
       [([], []), ([], []), ([], [])] [([], [])] True 5 1 True 1 (0, True)
     = (Inr ([Fin (7205759403792795 / 72057594037927936)],
             [Fin (3602879701896397 / 36028797018963968)]),
        (3, False),
        [ModelTrain,
         ZeroGrad, Forward True, Criterion True (Fin (3602879701896397 / 36028797018963968)),
         Backward, OptStep,
         ZeroGrad, Forward True, Criterion True (Fin (3602879701896397 / 36028797018963968)),
         Backward, OptStep,
         ZeroGrad, Forward True, Criterion True (Fin (3602879701896397 / 36028797018963968)),
         Backward, OptStep,
         ModelEval, Forward False, Criterion False (Fin (3602879701896397 / 36028797018963968)),
         LogFn 0 (Fin (7205759403792795 / 72057594037927936))
           (Fin (3602879701896397 / 36028797018963968))])"
  by (simp add: train_def run_defs double_tenth_again double_fifth_again
      double_3 double_sum_3 double_mean_3)

section \<open>Properties of the evaluators\<close>

text \<open>
  C10: with a loader of zero batches, \<open>evaluate\<close> raises ZeroDivisionError at its final
  division by the number of batches instead of returning a mean loss, and so does
  \<open>evaluate_unet\<close>, whatever the framework and its state are.
\<close>

theorem C10_empty_loader_raises:
  "fst (evaluate T [] w) = Inl ZeroDivisionError
   \<and> fst (evaluate_unet T [] w) = Inl ZeroDivisionError"
  by (simp add: evaluate_def evaluate_unet_def py_div_len_def)

lemma inference_event_simps [simp]:
  "inference_event ModelEval" "inference_event ModelTo"
  "inference_event (Forward g) = (\<not> g)" "inference_event (Criterion g l) = (\<not> g)"
  by (simp_all add: inference_event_def)

lemma evaluate_batches_frame:
  assumes fw: "\<And>w x. snap (snd (forward T False w x)) = snap w"
  shows "evaluate_batches T bs w acc = (r, w', evs)
         \<Longrightarrow> snap w' = snap w \<and> list_all inference_event evs"
proof (induction bs arbitrary: w acc r w' evs)
  case Nil
  then show ?case by simp
next
  case (Cons b bs)
  obtain x y where b: "b = (x, y)" by (cases b)
  obtain out w1 where f: "forward T False w (x_to T x) = (out, w1)"
    by (cases "forward T False w (x_to T x)")
  obtain r2 w2 evs2 where
    rec: "evaluate_batches T bs w1 (fadd acc (criterion T out (y_to T y))) = (r2, w2, evs2)"
    by (cases "evaluate_batches T bs w1 (fadd acc (criterion T out (y_to T y)))")
  from Cons.prems b f rec have eq: "w' = w2" "evs = Forward False # Criterion False (criterion T out (y_to T y)) # evs2"
    by (simp_all add: Let_def)
  from fw [of w "x_to T x"] f have "snap w1 = snap w" by simp
  with Cons.IH [OF rec] eq show ?case by simp
qed

lemma evaluate_unet_batches_frame:
  assumes fw: "\<And>w x. snap (snd (forward T False w x)) = snap w"
  shows "evaluate_unet_batches T bs w acc v = (r, w', evs)
         \<Longrightarrow> snap w' = snap w \<and> list_all inference_event evs"
proof (induction bs arbitrary: w acc v r w' evs)
  case Nil
  then show ?case by simp
next
  case (Cons b bs)
  obtain x y where b: "b = (x, y)" by (cases b)
  obtain out w1 where f: "forward T False w (x_to T x) = (out, w1)"
    by (cases "forward T False w (x_to T x)")
  from fw [of w "x_to T x"] f have s1: "snap w1 = snap w" by simp
  show ?case
  proof (cases "length (argmax T out) \<noteq> length (labels T (y_to T y))")
    case True
    with Cons.prems b f s1 show ?thesis by (auto simp: Let_def)
  next
    case False
    with Cons.prems b f obtain tl2 v2 r2 w2 evs2 where
      rec: "evaluate_unet_batches T bs w1 tl2 v2 = (r2, w2, evs2)"
      and eq: "w' = w2" "evs = Forward False # Criterion False (criterion T out (y_to T y)) # evs2"
      by (auto simp: Let_def split: prod.splits)
    with Cons.IH [OF rec] s1 show ?thesis by simp
  qed
qed

text \<open>
  C6: a call of \<open>evaluate\<close> or of \<open>evaluate_unet\<close> causes only inference events
  (\<open>model.eval()\<close>, \<open>model.to(device)\<close>, forward passes and losses under
  \<open>torch.no_grad()\<close>): no \<open>backward\<close>, no \<open>zero_grad\<close>, no optimizer or scheduler step.
  So whatever snapshot \<open>snap\<close> of the framework's state the three calls of the model
  itself (\<open>eval\<close>, \<open>to\<close>, a forward pass without gradients) leave unchanged, the whole
  evaluation leaves unchanged, also when it ends in an exception.
\<close>

theorem C6_evaluator_frame:
  assumes "\<forall>w. snap (model_eval T w) = snap w"
    and "\<forall>w. snap (model_to T w) = snap w"
    and "\<forall>w x. snap (snd (forward T False w x)) = snap w"
  shows "snap (fst (snd (evaluate T data_loader w))) = snap w
         \<and> list_all inference_event (snd (snd (evaluate T data_loader w)))
         \<and> snap (fst (snd (evaluate_unet T data_loader w))) = snap w
         \<and> list_all inference_event (snd (snd (evaluate_unet T data_loader w)))"
proof -
  obtain r1 w1 evs1 where a: "evaluate_batches T data_loader (model_eval T w) (Fin 0) = (r1, w1, evs1)"
    by (cases "evaluate_batches T data_loader (model_eval T w) (Fin 0)")
  obtain r2 w2 evs2 where b: "evaluate_unet_batches T data_loader (model_to T (model_eval T w)) (Fin 0)
       \<lparr>correct = 0, intersection = 0, denom = 0, total = 0, dice = Fin 0\<rparr> = (r2, w2, evs2)"
    by (cases "evaluate_unet_batches T data_loader (model_to T (model_eval T w)) (Fin 0)
       \<lparr>correct = 0, intersection = 0, denom = 0, total = 0, dice = Fin 0\<rparr>")
  from evaluate_batches_frame [OF _ a, of snap] assms
  have fa: "snap w1 = snap w" "list_all inference_event evs1" by simp_all
  from evaluate_unet_batches_frame [OF _ b, of snap] assms
  have fb: "snap w2 = snap w" "list_all inference_event evs2" by simp_all
  from a fa have "snap (fst (snd (evaluate T data_loader w))) = snap w
         \<and> list_all inference_event (snd (snd (evaluate T data_loader w)))"
    by (simp add: evaluate_def)
  moreover from b fb have "snap (fst (snd (evaluate_unet T data_loader w))) = snap w
         \<and> list_all inference_event (snd (snd (evaluate_unet T data_loader w)))"
    by (auto simp: evaluate_unet_def Let_def split: sum.splits prod.splits)
  ultimately show ?thesis by simp
qed

text \<open>
  On the small framework the snapshot is the number of optimizer steps: 7 before and after.
\<close>

theorem C6_evaluator_frame_witness:
  "(\<forall>w. fst (model_eval (toy growing_loss) w) = fst w)
   \<and> (\<forall>w. fst (model_to (toy growing_loss) w) = fst w)
   \<and> (\<forall>w x. fst (snd (forward (toy growing_loss) False w x)) = fst w)
   \<and> fst (fst (snd (evaluate (toy growing_loss) [([1], [1])] (7, True)))) = 7
   \<and> list_all inference_event (snd (snd (evaluate (toy growing_loss) [([1], [1])] (7, True))))
   \<and> fst (fst (snd (evaluate_unet (toy growing_loss) [([1], [1])] (7, True)))) = 7
   \<and> list_all inference_event (snd (snd (evaluate_unet (toy growing_loss) [([1], [1])] (7, True))))"
proof -
  have h1: "\<forall>w. fst (model_eval (toy growing_loss) w) = fst w"
    by (simp add: toy_def split: prod.splits)
  have h2: "\<forall>w. fst (model_to (toy growing_loss) w) = fst w"
    by (simp add: toy_def)
  have h3: "\<forall>w x. fst (snd (forward (toy growing_loss) False w x)) = fst w"
    by (simp add: toy_def split: prod.splits)
  from C6_evaluator_frame [OF h1 h2 h3, of "[([1], [1])]" "(7, True)"] h1 h2 h3
  show ?thesis by simp
qed

lemma evaluate_unet_batches_last:
  "evaluate_unet_batches T (bs @ [(x, y)]) w acc v = (Inr (acc', v'), w', evs)
   \<Longrightarrow> \<exists>w1 out w2. forward T False w1 (x_to T x) = (out, w2)
        \<and> correct v' = count_eq (argmax T out) (labels T (y_to T y))
        \<and> total v' = int (length (argmax T out))
        \<and> dice v' = dice_of (sum_prod (argmax T out) (labels T (y_to T y)))
                       (sum_plus (argmax T out) (labels T (y_to T y)))"
proof (induction bs arbitrary: w acc v evs)
  case Nil
  obtain out w2 where f: "forward T False w (x_to T x) = (out, w2)"
    by (cases "forward T False w (x_to T x)")
  with Nil have "correct v' = count_eq (argmax T out) (labels T (y_to T y))
        \<and> total v' = int (length (argmax T out))
        \<and> dice v' = dice_of (sum_prod (argmax T out) (labels T (y_to T y)))
                       (sum_plus (argmax T out) (labels T (y_to T y)))"
    by (auto simp: Let_def split: if_splits)
  with f show ?case by blast
next
  case (Cons b bs)
  obtain x0 y0 where b: "b = (x0, y0)" by (cases b)
  obtain out w1 where f: "forward T False w (x_to T x0) = (out, w1)"
    by (cases "forward T False w (x_to T x0)")
  from Cons.prems b f obtain acc1 v1 evs1 where
    "evaluate_unet_batches T (bs @ [(x, y)]) w1 acc1 v1 = (Inr (acc', v'), w', evs1)"
    by (auto simp: Let_def split: if_splits prod.splits)
  from Cons.IH [OF this] show ?case .
qed

lemma evaluate_unet_last_batch:
  assumes "evaluate_unet T (bs @ [(x, y)]) w = (Inr (loss, acc, d), w', evs)"
  shows "\<exists>w1 out w2. forward T False w1 (x_to T x) = (out, w2)
        \<and> acc = tensor_div (count_eq (argmax T out) (labels T (y_to T y)))
                   (int (length (argmax T out)))
        \<and> d = dice_of (sum_prod (argmax T out) (labels T (y_to T y)))
                 (sum_plus (argmax T out) (labels T (y_to T y)))"
proof -
  from assms obtain acc' v' evs1 where
    b: "evaluate_unet_batches T (bs @ [(x, y)]) (model_to T (model_eval T w)) (Fin 0)
       \<lparr>correct = 0, intersection = 0, denom = 0, total = 0, dice = Fin 0\<rparr>
     = (Inr (acc', v'), w', evs1)"
    and r: "acc = tensor_div (correct v') (total v')" "d = dice v'"
    by (auto simp: evaluate_unet_def Let_def split: prod.splits sum.splits)
  from evaluate_unet_batches_last [OF b] obtain w1 out w2 where
    "forward T False w1 (x_to T x) = (out, w2)"
    "correct v' = count_eq (argmax T out) (labels T (y_to T y))"
    "total v' = int (length (argmax T out))"
    "dice v' = dice_of (sum_prod (argmax T out) (labels T (y_to T y)))
                 (sum_plus (argmax T out) (labels T (y_to T y)))"
    by blast
  with r show ?thesis
    by (intro exI [of _ w1] exI [of _ out] exI [of _ w2]) simp
qed

text \<open>
  C1: \<open>evaluate_unet\<close> sets \<open>correct\<close>, \<open>intersection\<close>, \<open>denom\<close> and \<open>total\<close> back to
  0 at the start of every iteration, so what it returns are the accuracy and the Dice
  coefficient of the last batch. For the two batches with predictions and targets
  \<open>([1, 1], [1, 1])\<close> and \<open>([0, 1], [1, 0])\<close> it returns accuracy 0 and Dice 0, where the
  full pass has accuracy 2/4 and Dice 4/6 (rounded to float32); with the same two batches
  in the other order it returns accuracy 1 and Dice 1.
\<close>

theorem C1_last_batch_only:
  "fst (evaluate_unet (toy growing_loss) [([1, 1], [1, 1]), ([0, 1], [1, 0])] (0, True))
     = Inr (Fin 0, Fin 0, Fin 0)
   \<and> full_pass_accuracy [([1, 1], [1, 1]), ([0, 1], [1, 0])] = Fin (1 / 2)
   \<and> full_pass_dice [([1, 1], [1, 1]), ([0, 1], [1, 0])] = Fin (11184811 / 16777216)
   \<and> fst (evaluate_unet (toy growing_loss) [([0, 1], [1, 0]), ([1, 1], [1, 1])] (0, True))
     = Inr (Fin 0, Fin 1, Fin 1)"
  by (simp add: toy_unet_eval_1 toy_unet_eval_2 full_pass_accuracy_def full_pass_dice_def
      count_eq_def sum_prod_def sum_plus_def tensor_div_2_4 dice_of_2_6)

section \<open>Lengths of the histories\<close>

lemma stop_epoch_append:
  "stop_epoch (a @ b) = (case stop_epoch a of None \<Rightarrow> stop_epoch b | Some k \<Rightarrow> Some k)"
  by (induction a) (simp_all split: event.splits)

lemma stop_epoch_inference:
  "list_all inference_event evs \<Longrightarrow> stop_epoch evs = None"
  by (induction evs) (auto simp: inference_event_def split: event.splits)

lemma evaluate_stop: "evaluate T dl w = (r, w', evs) \<Longrightarrow> stop_epoch evs = None"
proof -
  assume a: "evaluate T dl w = (r, w', evs)"
  obtain r1 w1 evs1 where b: "evaluate_batches T dl (model_eval T w) (Fin 0) = (r1, w1, evs1)"
    by (cases "evaluate_batches T dl (model_eval T w) (Fin 0)")
  from evaluate_batches_frame [OF _ b, of "\<lambda>_. ()"] have "list_all inference_event evs1" by simp
  with a b show ?thesis by (auto simp: evaluate_def dest: stop_epoch_inference)
qed

lemma train_batches_stop:
  "train_batches T bs w acc = (r, w', evs) \<Longrightarrow> stop_epoch evs = None"
proof (induction bs arbitrary: w acc r w' evs)
  case Nil
  then show ?case by simp
next
  case (Cons b bs)
  obtain x y where b: "b = (x, y)" by (cases b)
  from Cons.prems b obtain w4 acc4 r4 w5 evs4 x4 where
    rec: "train_batches T bs w4 acc4 = (r4, w5, evs4)"
    and eq: "evs = ZeroGrad # Forward True # Criterion True x4 # Backward # OptStep # evs4"
    by (auto simp: Let_def split: prod.splits)
  with Cons.IH [OF rec] show ?case by simp
qed

lemma train_epoch_step:
  assumes "train_epoch T trl val lf le epoch w v = (Inr (stop, v'), w', evs)"
  shows "length (epoch_train_errors v') = Suc (length (epoch_train_errors v))
       \<and> length (epoch_val_errors v') = Suc (length (epoch_val_errors v))
       \<and> stop_epoch evs = (if stop then Some (int epoch) else None)"
proof -
  obtain tl0 w1 evs1 where a: "train_batches T trl (model_train T w) (Fin 0) = (tl0, w1, evs1)"
    by (cases "train_batches T trl (model_train T w) (Fin 0)")
  obtain r2 w2 evs2 where b: "evaluate T val w1 = (r2, w2, evs2)"
    by (cases "evaluate T val w1")
  note s1 = train_batches_stop [OF a] and s2 = evaluate_stop [OF b]
  from assms a b s1 s2 show ?thesis
    by (auto simp: train_epoch_def Let_def stop_epoch_append
        split: sum.splits option.splits if_splits)
qed

lemma epoch_loop_lengths:
  assumes body: "\<And>epoch w v stop v' w' evs. body epoch w v = (Inr (stop, v'), w', evs)
      \<Longrightarrow> len v' = Suc (len v) \<and> stop_epoch evs = (if stop then Some (int epoch) else None)"
  shows "epoch_loop body es w v = (Inr v', w', evs)
    \<Longrightarrow> (case stop_epoch evs of
           None \<Rightarrow> len v' = len v + length es
         | Some k \<Rightarrow> \<exists>i < length es. k = int (es ! i) \<and> len v' = len v + i + 1)"
proof (induction es arbitrary: w v v' w' evs)
  case Nil
  then show ?case by simp
next
  case (Cons epoch es)
  from Cons.prems obtain stop v1 w1 evs1 where
    b: "body epoch w v = (Inr (stop, v1), w1, evs1)"
    by (auto split: prod.splits sum.splits)
  note b1 = body [OF b]
  show ?case
  proof (cases stop)
    case True
    with Cons.prems b have "v' = v1" "evs = evs1" by simp_all
    with b1 True show ?thesis by auto
  next
    case False
    with Cons.prems b obtain evs2 where
      rec: "epoch_loop body es w1 v1 = (Inr v', w', evs2)" and e: "evs = evs1 @ evs2"
      by (auto split: prod.splits)
    from Cons.IH [OF rec] b1 False e show ?thesis
      by (auto simp: stop_epoch_append split: option.splits)
  qed
qed

lemma epoch_loop_range:
  assumes body: "\<And>epoch w v stop v' w' evs. body epoch w v = (Inr (stop, v'), w', evs)
      \<Longrightarrow> len v' = Suc (len v) \<and> stop_epoch evs = (if stop then Some (int epoch) else None)"
    and run: "epoch_loop body [0..<n] w v = (Inr v', w', evs)"
  shows "case stop_epoch evs of
           None \<Rightarrow> len v' = len v + n
         | Some k \<Rightarrow> 0 \<le> k \<and> k < int n \<and> int (len v') = int (len v) + k + 1"
proof -
  have "case stop_epoch evs of
           None \<Rightarrow> len v' = len v + length [0..<n]
         | Some k \<Rightarrow> \<exists>i < length [0..<n]. k = int ([0..<n] ! i) \<and> len v' = len v + i + 1"
  proof (rule epoch_loop_lengths [where body = body])
    show "epoch_loop body [0..<n] w v = (Inr v', w', evs)" by (rule run)
  qed (rule body)
  then show ?thesis by (auto split: option.splits)
qed

lemma unet_train_batches_stop:
  "unet_train_batches T sch bs w acc = (r, w', evs) \<Longrightarrow> stop_epoch evs = None"
proof (induction bs arbitrary: w acc r w' evs)
  case Nil
  then show ?case by simp
next
  case (Cons b bs)
  obtain x y where b: "b = (x, y)" by (cases b)
  obtain a1 a2 a3 where acc: "acc = (a1, a2, a3)" by (cases acc)
  obtain out w1 where f: "forward T True w (x_to T x) = (out, w1)"
    by (cases "forward T True w (x_to T x)")
  let ?evs0 = "[Forward True, Criterion True (criterion T out (y_to T y)), ZeroGrad, Backward,
                OptStep] @ (if sch then [SchedStep (criterion T out (y_to T y))] else [])"
  have e0: "stop_epoch ?evs0 = None" by simp
  show ?case
  proof (cases "length (argmax T out) \<noteq> length (labels T (y_to T y))")
    case True
    with Cons.prems b acc f have "evs = ?evs0" by (simp add: Let_def)
    with e0 show ?thesis by simp
  next
    case False
    with Cons.prems b acc f obtain w5 acc5 r5 w6 evs5 where
      rec: "unet_train_batches T sch bs w5 acc5 = (r5, w6, evs5)" and eq: "evs = ?evs0 @ evs5"
      by (auto simp: Let_def split: prod.splits)
    from Cons.IH [OF rec] eq e0 show ?thesis by (simp add: stop_epoch_append)
  qed
qed

lemma evaluate_unet_stop: "evaluate_unet T dl w = (r, w', evs) \<Longrightarrow> stop_epoch evs = None"
proof -
  assume a: "evaluate_unet T dl w = (r, w', evs)"
  obtain r1 w1 evs1 where b: "evaluate_unet_batches T dl (model_to T (model_eval T w)) (Fin 0)
       \<lparr>correct = 0, intersection = 0, denom = 0, total = 0, dice = Fin 0\<rparr> = (r1, w1, evs1)"
    by (cases "evaluate_unet_batches T dl (model_to T (model_eval T w)) (Fin 0)
       \<lparr>correct = 0, intersection = 0, denom = 0, total = 0, dice = Fin 0\<rparr>")
  from evaluate_unet_batches_frame [OF _ b, of "\<lambda>_. ()"]
  have "stop_epoch evs1 = None" by (simp add: stop_epoch_inference)
  with a b show ?thesis
    by (auto simp: evaluate_unet_def Let_def split: sum.splits prod.splits)
qed

lemma unet_call_stop: "stop_epoch (snd (EarlyStoppingForUnet_call e d)) = None"
  by (simp add: EarlyStoppingForUnet_call_def Let_def)

lemma unet_train_epoch_step:
  assumes "unet_train_epoch T sch trl val lf le epoch w v = (Inr (stop, v'), w', evs)"
  shows "length (epoch_train_errors v') = Suc (length (epoch_train_errors v))
       \<and> length (epoch_val_errors v') = Suc (length (epoch_val_errors v))
       \<and> length (epoch_dice_values v') = Suc (length (epoch_dice_values v))
       \<and> stop_epoch evs = (if stop then Some (int epoch) else None)"
proof -
  obtain r1 w1 evs1 where
    a: "unet_train_batches T sch trl (model_train T w) (Fin 0, 0, 0) = (r1, w1, evs1)"
    by (cases "unet_train_batches T sch trl (model_train T w) (Fin 0, 0, 0)")
  obtain r2 w2 evs2 where b: "evaluate_unet T val w1 = (r2, w2, evs2)"
    by (cases "evaluate_unet T val w1")
  note s1 = unet_train_batches_stop [OF a] and s2 = evaluate_unet_stop [OF b]
  have s3: "\<And>e d e1 out. EarlyStoppingForUnet_call e d = (e1, out) \<Longrightarrow> stop_epoch out = None"
    using unet_call_stop by (metis snd_conv)
  from assms a b s1 s2 show ?thesis
    by (auto simp: unet_train_epoch_def Let_def stop_epoch_append
        split: sum.splits option.splits if_splits prod.splits dest: s3)
qed

lemma train_lengths:
  assumes t: "train T train_loader val_loader do_early_stopping patience0 epochs log_fn log_every w
               = (Inr (tr, va), w', evs)"
    and e: "0 \<le> epochs"
  shows "length tr = length va
       \<and> (case stop_epoch evs of
            None \<Rightarrow> int (length tr) = epochs
          | Some k \<Rightarrow> 0 \<le> k \<and> k < epochs \<and> int (length tr) = k + 1)"
proof -
  let ?body = "train_epoch T train_loader val_loader log_fn log_every"
  let ?v0 = "\<lparr>epoch_train_errors = [], epoch_val_errors = [],
               early_stopping =
                 (if do_early_stopping then Some (EarlyStopping_init patience0) else None)\<rparr>"
  from t obtain v where
    run: "epoch_loop ?body [0..<nat epochs] w ?v0 = (Inr v, w', evs)"
    and tr: "tr = epoch_train_errors v" and va: "va = epoch_val_errors v"
    by (auto simp: train_def Let_def split: prod.splits sum.splits)
  have a: "case stop_epoch evs of
           None \<Rightarrow> length (epoch_train_errors v) = length (epoch_train_errors ?v0) + nat epochs
         | Some k \<Rightarrow> 0 \<le> k \<and> k < int (nat epochs)
             \<and> int (length (epoch_train_errors v)) = int (length (epoch_train_errors ?v0)) + k + 1"
    by (rule epoch_loop_range [of ?body "\<lambda>v. length (epoch_train_errors v)", OF _ run])
       (simp add: train_epoch_step)
  have b: "case stop_epoch evs of
           None \<Rightarrow> length (epoch_val_errors v) = length (epoch_val_errors ?v0) + nat epochs
         | Some k \<Rightarrow> 0 \<le> k \<and> k < int (nat epochs)
             \<and> int (length (epoch_val_errors v)) = int (length (epoch_val_errors ?v0)) + k + 1"
    by (rule epoch_loop_range [of ?body "\<lambda>v. length (epoch_val_errors v)", OF _ run])
       (simp add: train_epoch_step)
  from a b tr va e show ?thesis
    by (auto split: option.splits)
qed

lemma train_unet_lengths:
  assumes t: "train_unet_with_scheduler T sch train_loader val_loader do_early_stopping patience0
               epochs log_fn log_every w = (Inr (tr, va, di), w', evs)"
    and e: "0 \<le> epochs"
  shows "length tr = length va \<and> length di = length va
       \<and> (case stop_epoch evs of
            None \<Rightarrow> int (length tr) = epochs
          | Some k \<Rightarrow> 0 \<le> k \<and> k < epochs \<and> int (length tr) = k + 1)"
proof -
  let ?body = "unet_train_epoch T sch train_loader val_loader log_fn log_every"
  let ?v0 = "\<lparr>epoch_train_errors = [], epoch_val_errors = [],
               early_stopping =
                 (if do_early_stopping then Some (EarlyStoppingForUnet_init patience0) else None),
               epoch_dice_values = [], epoc_acc = []\<rparr>"
  from t obtain v where
    run: "epoch_loop ?body [0..<nat epochs] w ?v0 = (Inr v, w', evs)"
    and tr: "tr = epoch_train_errors v" and va: "va = epoch_val_errors v"
    and di: "di = epoch_dice_values v"
    by (auto simp: train_unet_with_scheduler_def Let_def split: prod.splits sum.splits)
  have a: "case stop_epoch evs of
           None \<Rightarrow> length (epoch_train_errors v) = length (epoch_train_errors ?v0) + nat epochs
         | Some k \<Rightarrow> 0 \<le> k \<and> k < int (nat epochs)
             \<and> int (length (epoch_train_errors v)) = int (length (epoch_train_errors ?v0)) + k + 1"
    by (rule epoch_loop_range [of ?body "\<lambda>v. length (epoch_train_errors v)", OF _ run])
       (simp add: unet_train_epoch_step)
  have b: "case stop_epoch evs of
           None \<Rightarrow> length (epoch_val_errors v) = length (epoch_val_errors ?v0) + nat epochs
         | Some k \<Rightarrow> 0 \<le> k \<and> k < int (nat epochs)
             \<and> int (length (epoch_val_errors v)) = int (length (epoch_val_errors ?v0)) + k + 1"
    by (rule epoch_loop_range [of ?body "\<lambda>v. length (epoch_val_errors v)", OF _ run])
       (simp add: unet_train_epoch_step)
  have c: "case stop_epoch evs of
           None \<Rightarrow> length (epoch_dice_values v) = length (epoch_dice_values ?v0) + nat epochs
         | Some k \<Rightarrow> 0 \<le> k \<and> k < int (nat epochs)
             \<and> int (length (epoch_dice_values v)) = int (length (epoch_dice_values ?v0)) + k + 1"
    by (rule epoch_loop_range [of ?body "\<lambda>v. length (epoch_dice_values v)", OF _ run])
       (simp add: unet_train_epoch_step)
  from a b c tr va di e show ?thesis
    by (auto split: option.splits)
qed

text \<open>
  C4: when \<open>train\<close> returns, for a number of epochs \<open>epochs \<ge> 0\<close>, its two histories have
  the same length: \<open>epochs\<close> when no early stop was printed, and \<open>k + 1\<close> when the stop
  was printed for epoch \<open>k\<close>. The same holds for the three histories of \<open>train_unet\<close>.
\<close>

theorem C4_history_lengths:
  "(train T train_loader val_loader do_early_stopping patience0 epochs log_fn log_every w
      = (Inr (tr, va), w', evs) \<and> 0 \<le> epochs
    \<longrightarrow> length tr = length va
        \<and> (case stop_epoch evs of
             None \<Rightarrow> int (length tr) = epochs
           | Some k \<Rightarrow> 0 \<le> k \<and> k < epochs \<and> int (length tr) = k + 1))
   \<and> (train_unet T train_loader val_loader do_early_stopping patience0 epochs log_fn log_every w
         = (Inr (tr2, va2, di2), w2, evs2) \<and> 0 \<le> epochs
       \<longrightarrow> length tr2 = length va2 \<and> length di2 = length va2
           \<and> (case stop_epoch evs2 of
                None \<Rightarrow> int (length tr2) = epochs
              | Some k \<Rightarrow> 0 \<le> k \<and> k < epochs \<and> int (length tr2) = k + 1))"
  using train_lengths [of T train_loader val_loader do_early_stopping patience0 epochs log_fn
      log_every w tr va w' evs]
    train_unet_lengths [of T False train_loader val_loader do_early_stopping patience0 epochs
      log_fn log_every w tr2 va2 di2 w2 evs2]
  unfolding train_unet_def by blast

text \<open>
  Two runs on the small framework that stop early at epoch 1 of 5, with histories of
  length 2.
\<close>

theorem C4_history_lengths_witness:
  "train (toy growing_loss) [([1], [1])] [([2], [1])] True 1 5 True 1 (0, True)
     = (Inr ([Fin 0, Fin 1], [Fin 0, Fin 1]), (2, False),
        [ModelTrain, ZeroGrad, Forward True, Criterion True (Fin 0), Backward, OptStep,
         ModelEval, Forward False, Criterion False (Fin 0), LogFn 0 (Fin 0) (Fin 0),
         ModelTrain, ZeroGrad, Forward True, Criterion True (Fin 1), Backward, OptStep,
         ModelEval, Forward False, Criterion False (Fin 1), LogFn 1 (Fin 1) (Fin 1),
         PrintStop 1 (Fin 0)])
   \<and> train_unet (toy growing_loss) [([1], [1])] [([2], [1])] True 1 5 True 1 (0, True)
     = (Inr ([Fin 0, Fin 1], [Fin 0, Fin 1], [Fin 1, Fin 0]), (2, False),
        [ModelTrain, Forward True, Criterion True (Fin 0), ZeroGrad, Backward, OptStep,
         ModelEval, ModelTo, Forward False, Criterion False (Fin 0), PrintBest (Fin 1),
         LogFnUnet 0 (Fin 0) (Fin 0) (Fin 1) (Fin 1),
         ModelTrain, Forward True, Criterion True (Fin 1), ZeroGrad, Backward, OptStep,
         ModelEval, ModelTo, Forward False, Criterion False (Fin 1), PrintCounter 1,
         LogFnUnet 1 (Fin 1) (Fin 1) (Fin 0) (Fin 0), PrintStop 1 (Fin 1)])
   \<and> (0 :: int) \<le> 5
   \<and> length [Fin 0, Fin 1] = length [Fin 0, Fin 1]
   \<and> length [Fin 1, Fin 0] = length [Fin 0, Fin 1]
   \<and> stop_epoch [ModelTrain, ZeroGrad, Forward True, Criterion True (Fin 0), Backward, OptStep,
         ModelEval, Forward False, Criterion False (Fin 0), LogFn 0 (Fin 0) (Fin 0),
         ModelTrain, ZeroGrad, Forward True, Criterion True (Fin 1), Backward, OptStep,
         ModelEval, Forward False, Criterion False (Fin 1), LogFn 1 (Fin 1) (Fin 1),
         PrintStop 1 (Fin 0)] = Some 1
   \<and> int (length [Fin 0 :: pyfloat, Fin 1]) = 1 + 1"
  using C4_history_lengths [where T = "toy growing_loss" and train_loader = "[([1], [1])]"
      and val_loader = "[([2], [1])]" and do_early_stopping = True and ?patience0.0 = 1
      and epochs = 5 and log_fn = True and log_every = 1 and w = "(0, True)"
      and tr = "[Fin 0, Fin 1]" and va = "[Fin 0, Fin 1]" and w' = "(2, False)"
      and evs = "[ModelTrain, ZeroGrad, Forward True, Criterion True (Fin 0), Backward, OptStep,
         ModelEval, Forward False, Criterion False (Fin 0), LogFn 0 (Fin 0) (Fin 0),
         ModelTrain, ZeroGrad, Forward True, Criterion True (Fin 1), Backward, OptStep,
         ModelEval, Forward False, Criterion False (Fin 1), LogFn 1 (Fin 1) (Fin 1),
         PrintStop 1 (Fin 0)]"
      and ?tr2.0 = "[Fin 0, Fin 1]" and ?va2.0 = "[Fin 0, Fin 1]" and ?di2.0 = "[Fin 1, Fin 0]"
      and ?w2.0 = "(2, False)"
      and ?evs2.0 = "[ModelTrain, Forward True, Criterion True (Fin 0), ZeroGrad, Backward,
         OptStep, ModelEval, ModelTo, Forward False, Criterion False (Fin 0), PrintBest (Fin 1),
         LogFnUnet 0 (Fin 0) (Fin 0) (Fin 1) (Fin 1),
         ModelTrain, Forward True, Criterion True (Fin 1), ZeroGrad, Backward, OptStep,
         ModelEval, ModelTo, Forward False, Criterion False (Fin 1), PrintCounter 1,
         LogFnUnet 1 (Fin 1) (Fin 1) (Fin 0) (Fin 0), PrintStop 1 (Fin 1)]"]
  by (simp add: toy_train_run toy_train_unet_run)

section \<open>Notifying the scheduler\<close>

text \<open>Reading the losses of the training batches from the events.\<close>

lemma train_loss_of_simps [simp]:
  "train_loss_of (Criterion g l) = (if g then [l] else [])"
  "train_loss_of ModelEval = []" "train_loss_of ModelTrain = []" "train_loss_of ModelTo = []"
  "train_loss_of (Forward g) = []" "train_loss_of (SchedStep l) = []" "train_loss_of ZeroGrad = []"
  "train_loss_of Backward = []" "train_loss_of OptStep = []" "train_loss_of (LogFn i a b) = []"
  "train_loss_of (LogFnUnet i a b c d) = []" "train_loss_of (PrintCounter i) = []"
  "train_loss_of (PrintBest a) = []" "train_loss_of (PrintStop i a) = []"
  by (simp_all add: train_loss_of_def)

lemma train_losses_simps [simp]:
  "train_losses [] = []"
  "train_losses (e # r) = train_loss_of e @ train_losses r"
  "train_losses (a @ b) = train_losses a @ train_losses b"
  by (simp_all add: train_losses_def)

lemma train_losses_inference:
  "list_all inference_event evs \<Longrightarrow> train_losses evs = []"
  by (induction evs) (auto simp: inference_event_def split: event.splits)

lemma train_losses_unet_call: "train_losses (snd (EarlyStoppingForUnet_call e d)) = []"
  by (simp add: EarlyStoppingForUnet_call_def Let_def)

text \<open>Reading the recorded calls.\<close>

lemma notified_of_simps [simp]:
  "notified_of (CallSchedStep l) = [l]"
  "notified_of CallEval = []" "notified_of CallTrain = []" "notified_of CallTo = []"
  "notified_of (CallForward g) = []" "notified_of CallZeroGrad = []"
  "notified_of (CallBackward l) = []" "notified_of CallOptStep = []"
  by (simp_all add: notified_of_def)

lemma backward_loss_of_simps [simp]:
  "backward_loss_of (CallBackward l) = [l]"
  "backward_loss_of CallEval = []" "backward_loss_of CallTrain = []" "backward_loss_of CallTo = []"
  "backward_loss_of (CallForward g) = []" "backward_loss_of CallZeroGrad = []"
  "backward_loss_of (CallSchedStep l) = []" "backward_loss_of CallOptStep = []"
  by (simp_all add: backward_loss_of_def)

lemma notified_simps [simp]:
  "notified [] = []"
  "notified (c # r) = notified_of c @ notified r"
  "notified (a @ b) = notified a @ notified b"
  by (simp_all add: notified_def)

lemma backward_losses_simps [simp]:
  "backward_losses [] = []"
  "backward_losses (c # r) = backward_loss_of c @ backward_losses r"
  "backward_losses (a @ b) = backward_losses a @ backward_losses b"
  by (simp_all add: backward_losses_def)

lemma run_protocol_append:
  "run_protocol ph (a @ b)
     = (case run_protocol ph a of None \<Rightarrow> None | Some ph' \<Rightarrow> run_protocol ph' b)"
  by (induction a arbitrary: ph) (simp_all split: option.splits)

text \<open>What each operation of \<open>recording T\<close> does to a state and its recorded calls.\<close>

lemma recording_simps [simp]:
  "model_eval (recording T) (w, cs) = (model_eval T w, cs @ [CallEval])"
  "model_train (recording T) (w, cs) = (model_train T w, cs @ [CallTrain])"
  "model_to (recording T) (w, cs) = (model_to T w, cs @ [CallTo])"
  "x_to (recording T) = x_to T"
  "y_to (recording T) = y_to T"
  "forward (recording T) g (w, cs) x
     = (fst (forward T g w x), (snd (forward T g w x), cs @ [CallForward g]))"
  "criterion (recording T) = criterion T"
  "backward (recording T) out y (w, cs)
     = (backward T out y w, cs @ [CallBackward (criterion T out y)])"
  "zero_grad (recording T) (w, cs) = (zero_grad T w, cs @ [CallZeroGrad])"
  "opt_step (recording T) (w, cs) = (opt_step T w, cs @ [CallOptStep])"
  "sched_step (recording T) l (w, cs) = (sched_step T l w, cs @ [CallSchedStep l])"
  "argmax (recording T) = argmax T"
  "labels (recording T) = labels T"
  by (simp_all add: recording_def split: prod.splits)

text \<open>A pass of inference adds only forward passes without gradients to the recorded calls.\<close>

lemma evaluate_unet_batches_recording:
  "evaluate_unet_batches (recording T) bs (w, cs) acc v = (r, (w', cs'), evs)
   \<Longrightarrow> evaluate_unet_batches T bs w acc v = (r, w', evs)
       \<and> (\<exists>k. cs' = cs @ replicate k (CallForward False))"
proof (induction bs arbitrary: w cs acc v r w' cs' evs)
  case Nil
  then show ?case by simp
next
  case (Cons b bs)
  obtain x y where b: "b = (x, y)" by (cases b)
  obtain out w1 where f: "forward T False w (x_to T x) = (out, w1)"
    by (cases "forward T False w (x_to T x)")
  show ?case
  proof (cases "length (argmax T out) \<noteq> length (labels T (y_to T y))")
    case True
    with Cons.prems b f have "r = Inl RuntimeError" "w' = w1" "cs' = cs @ [CallForward False]"
      "evs = [Forward False, Criterion False (criterion T out (y_to T y))]"
      by (simp_all add: Let_def)
    moreover from True b f have "evaluate_unet_batches T (b # bs) w acc v
        = (Inl RuntimeError, w1, [Forward False, Criterion False (criterion T out (y_to T y))])"
      by (simp add: Let_def)
    moreover have "cs @ [CallForward False] = cs @ replicate 1 (CallForward False)" by simp
    ultimately show ?thesis by blast
  next
    case False
    with Cons.prems b f obtain acc2 v2 evs2 where
      rec: "evaluate_unet_batches (recording T) bs (w1, cs @ [CallForward False]) acc2 v2
              = (r, (w', cs'), evs2)"
      and eq: "evs = Forward False # Criterion False (criterion T out (y_to T y)) # evs2"
      and a2: "acc2 = fadd acc (criterion T out (y_to T y))"
      and v2: "v2 = v\<lparr>correct := count_eq (argmax T out) (labels T (y_to T y)),
                  total := int (length (argmax T out)),
                  intersection := sum_prod (argmax T out) (labels T (y_to T y)),
                  denom := sum_plus (argmax T out) (labels T (y_to T y)),
                  dice := dice_of (sum_prod (argmax T out) (labels T (y_to T y)))
                            (sum_plus (argmax T out) (labels T (y_to T y)))\<rparr>"
      by (auto simp: Let_def split: prod.splits)
    from Cons.IH [OF rec] obtain k where
      ih: "evaluate_unet_batches T bs w1 acc2 v2 = (r, w', evs2)"
      and k: "cs' = (cs @ [CallForward False]) @ replicate k (CallForward False)"
      by blast
    from False b f ih eq a2 v2 have "evaluate_unet_batches T (b # bs) w acc v = (r, w', evs)"
      by (simp add: Let_def)
    moreover from k have "cs' = cs @ replicate (Suc k) (CallForward False)" by simp
    ultimately show ?thesis by blast
  qed
qed


lemma quiet_forwards:
  "run_protocol Idle (replicate k (CallForward False)) = Some Idle"
  "notified (replicate k (CallForward False)) = []"
  "backward_losses (replicate k (CallForward False)) = []"
  by (induction k) (simp_all add: next_phase_def)

lemma evaluate_unet_recording:
  assumes "evaluate_unet (recording T) dl (w, cs) = (r, (w', cs'), evs)"
  shows "evaluate_unet T dl w = (r, w', evs)
       \<and> (\<exists>new. cs' = cs @ new \<and> run_protocol Idle new = Some Idle \<and> notified new = []
              \<and> backward_losses new = [])"
proof -
  let ?v0 = "\<lparr>correct = 0, intersection = 0, denom = 0, total = 0, dice = Fin 0\<rparr>"
  obtain r1 w1 cs1 evs1 where
    b: "evaluate_unet_batches (recording T) dl (model_to T (model_eval T w), cs @ [CallEval, CallTo])
          (Fin 0) ?v0 = (r1, (w1, cs1), evs1)"
    by (metis prod.exhaust)
  from evaluate_unet_batches_recording [OF b] obtain k where
    t: "evaluate_unet_batches T dl (model_to T (model_eval T w)) (Fin 0) ?v0 = (r1, w1, evs1)"
    and k: "cs1 = (cs @ [CallEval, CallTo]) @ replicate k (CallForward False)"
    by blast
  from assms b have e: "w' = w1" "cs' = cs1"
    by (auto simp: evaluate_unet_def Let_def split: sum.splits prod.splits)
  from assms b t have "evaluate_unet T dl w = (r, w', evs)"
    by (auto simp: evaluate_unet_def Let_def split: sum.splits prod.splits)
  moreover from k e have "cs' = cs @ ([CallEval, CallTo] @ replicate k (CallForward False))"
    by simp
  moreover have "run_protocol Idle ([CallEval, CallTo] @ replicate k (CallForward False)) = Some Idle"
    "notified ([CallEval, CallTo] @ replicate k (CallForward False)) = []"
    "backward_losses ([CallEval, CallTo] @ replicate k (CallForward False)) = []"
    by (simp_all add: next_phase_def quiet_forwards)
  ultimately show ?thesis by blast
qed

text \<open>
  The batch loop with a scheduler adds, for each batch, the forward pass, \<open>zero_grad\<close>,
  \<open>backward\<close> of the loss of the batch, the optimizer step and the notification.
\<close>

lemma unet_train_batches_recording:
  "unet_train_batches (recording T) sch bs (w, cs) acc = (r, (w', cs'), evs)
   \<Longrightarrow> unet_train_batches T sch bs w acc = (r, w', evs)
       \<and> (sch \<longrightarrow> (\<exists>new. cs' = cs @ new \<and> run_protocol Idle new = Some Idle
                     \<and> notified new = backward_losses new
                     \<and> backward_losses new = train_losses evs
                     \<and> (\<forall>a. r = Inr a \<longrightarrow> length (notified new) = length bs)))"
proof (induction bs arbitrary: w cs acc r w' cs' evs)
  case Nil
  then show ?case by auto
next
  case (Cons b bs)
  obtain x y where b: "b = (x, y)" by (cases b)
  obtain a1 a2 a3 where acc: "acc = (a1, a2, a3)" by (cases acc)
  obtain out w1 where f: "forward T True w (x_to T x) = (out, w1)"
    by (cases "forward T True w (x_to T x)")
  let ?l = "criterion T out (y_to T y)"
  let ?w4 = "opt_step T (backward T out (y_to T y) (zero_grad T w1))"
  let ?w5 = "if sch then sched_step T ?l ?w4 else ?w4"
  let ?new0 = "[CallForward True, CallZeroGrad, CallBackward ?l, CallOptStep]
                 @ (if sch then [CallSchedStep ?l] else [])"
  let ?evs0 = "[Forward True, Criterion True ?l, ZeroGrad, Backward, OptStep]
                 @ (if sch then [SchedStep ?l] else [])"
  have n0: "sch \<Longrightarrow> run_protocol Idle ?new0 = Some Idle \<and> notified ?new0 = [?l]
              \<and> backward_losses ?new0 = [?l]"
    by (simp add: next_phase_def)
  have e0: "train_losses ?evs0 = [?l]" by simp
  show ?case
  proof (cases "length (argmax T out) \<noteq> length (labels T (y_to T y))")
    case True
    with Cons.prems b acc f have res: "r = Inl RuntimeError" "w' = ?w5" "cs' = cs @ ?new0"
      "evs = ?evs0"
      by (cases sch; simp add: Let_def; blast)+
    from True b acc f have "unet_train_batches T sch (b # bs) w acc = (Inl RuntimeError, ?w5, ?evs0)"
      by (cases sch; simp add: Let_def)
    with res n0 e0 show ?thesis by auto
  next
    case False
    let ?acc2 = "(fadd a1 ?l, a2 + count_eq (argmax T out) (labels T (y_to T y)),
                  a3 + int (length (argmax T out)))"
    from False Cons.prems b acc f obtain evs2 where
      rec: "unet_train_batches (recording T) sch bs (?w5, cs @ ?new0) ?acc2 = (r, (w', cs'), evs2)"
      and eq: "evs = ?evs0 @ evs2"
      by (cases sch; simp add: Let_def split: prod.splits)
    from Cons.IH [OF rec] have
      ih1: "unet_train_batches T sch bs ?w5 ?acc2 = (r, w', evs2)"
      and ih2: "sch \<longrightarrow> (\<exists>new. cs' = (cs @ ?new0) @ new \<and> run_protocol Idle new = Some Idle
                     \<and> notified new = backward_losses new
                     \<and> backward_losses new = train_losses evs2
                     \<and> (\<forall>a. r = Inr a \<longrightarrow> length (notified new) = length bs))"
      by blast+
    from False b acc f ih1 eq have t: "unet_train_batches T sch (b # bs) w acc = (r, w', evs)"
      by (cases sch; simp add: Let_def)
    have "\<exists>new. cs' = cs @ new \<and> run_protocol Idle new = Some Idle
                     \<and> notified new = backward_losses new
                     \<and> backward_losses new = train_losses evs
                     \<and> (\<forall>a. r = Inr a \<longrightarrow> length (notified new) = length (b # bs))" if sch
    proof -
      from ih2 that obtain new where
        n: "cs' = (cs @ ?new0) @ new" "run_protocol Idle new = Some Idle"
        "notified new = backward_losses new" "backward_losses new = train_losses evs2"
        "\<forall>a. r = Inr a \<longrightarrow> length (notified new) = length bs"
        by blast
      from n0 [OF that] n(2) have "run_protocol Idle (?new0 @ new) = Some Idle"
        by (simp only: run_protocol_append option.case)
      moreover from n0 [OF that] n(3) have "notified (?new0 @ new) = backward_losses (?new0 @ new)"
        by (simp only: notified_simps backward_losses_simps)
      moreover from n0 [OF that] n(4) e0 eq
      have "backward_losses (?new0 @ new) = train_losses evs"
        by (simp only: backward_losses_simps train_losses_simps)
      moreover from n0 [OF that] n(5)
      have "\<forall>a. r = Inr a \<longrightarrow> length (notified (?new0 @ new)) = length (b # bs)"
        by (simp only: notified_simps) simp
      moreover from n(1) have "cs' = cs @ (?new0 @ new)" by simp
      ultimately show ?thesis by blast
    qed
    with t show ?thesis by blast
  qed
qed


lemma evaluate_unet_train_losses:
  assumes a: "evaluate_unet T dl w = (r, w', evs)"
  shows "train_losses evs = []"
proof -
  obtain r1 w1 evs1 where b: "evaluate_unet_batches T dl (model_to T (model_eval T w)) (Fin 0)
       \<lparr>correct = 0, intersection = 0, denom = 0, total = 0, dice = Fin 0\<rparr> = (r1, w1, evs1)"
    by (cases "evaluate_unet_batches T dl (model_to T (model_eval T w)) (Fin 0)
       \<lparr>correct = 0, intersection = 0, denom = 0, total = 0, dice = Fin 0\<rparr>")
  from evaluate_unet_batches_frame [OF _ b, of "\<lambda>_. ()"]
  have "list_all inference_event evs1" by simp
  with a b have "list_all inference_event evs"
    by (auto simp: evaluate_unet_def Let_def split: sum.splits prod.splits)
  then show ?thesis by (rule train_losses_inference)
qed

text \<open>
  One epoch: \<open>model.train()\<close>, the batches, then the evaluation.
\<close>

lemma unet_train_epoch_recording:
  assumes a: "unet_train_epoch (recording T) sch trl val lf le epoch (w, cs) v
                = (r, (w', cs'), evs)"
  shows "unet_train_epoch T sch trl val lf le epoch w v = (r, w', evs)
       \<and> (sch \<longrightarrow> (\<exists>new. cs' = cs @ new \<and> run_protocol Idle new = Some Idle
                     \<and> notified new = backward_losses new
                     \<and> backward_losses new = train_losses evs
                     \<and> (\<forall>sv. r = Inr sv \<longrightarrow> length (notified new) = length trl)))"
proof -
  obtain r1 w1 cs1 evs1 where
    b: "unet_train_batches (recording T) sch trl (model_train T w, cs @ [CallTrain]) (Fin 0, 0, 0)
          = (r1, (w1, cs1), evs1)"
    by (metis prod.exhaust)
  obtain r2 w2 cs2 evs2 where c: "evaluate_unet (recording T) val (w1, cs1) = (r2, (w2, cs2), evs2)"
    by (metis prod.exhaust)
  note b1 = unet_train_batches_recording [OF b] and c1 = evaluate_unet_recording [OF c]
  from b1 have bT: "unet_train_batches T sch trl (model_train T w) (Fin 0, 0, 0) = (r1, w1, evs1)"
    by blast
  from c1 have cT: "evaluate_unet T val w1 = (r2, w2, evs2)" by blast
  note q = evaluate_unet_train_losses [OF cT]
  have p3: "\<And>e d e1 out. EarlyStoppingForUnet_call e d = (e1, out) \<Longrightarrow> train_losses out = []"
    using train_losses_unet_call by (metis snd_conv)
  from a b c bT cT have t: "unet_train_epoch T sch trl val lf le epoch w v = (r, w', evs)"
    by (auto simp: unet_train_epoch_def Let_def
        split: sum.splits option.splits if_splits prod.splits)
  from a b c have st: "cs' = cs1 \<or> cs' = cs2"
    by (auto simp: unet_train_epoch_def Let_def
        split: sum.splits option.splits if_splits prod.splits)
  from a b c q have tl: "train_losses evs = train_losses evs1"
    by (auto simp: unet_train_epoch_def Let_def
        split: sum.splits option.splits if_splits prod.splits dest!: p3)
  from a b have ok: "\<forall>sv. r = Inr sv \<longrightarrow> (\<exists>a. r1 = Inr a)"
    by (auto simp: unet_train_epoch_def Let_def
        split: sum.splits option.splits if_splits prod.splits)
  have "\<exists>new. cs' = cs @ new \<and> run_protocol Idle new = Some Idle
                     \<and> notified new = backward_losses new
                     \<and> backward_losses new = train_losses evs
                     \<and> (\<forall>sv. r = Inr sv \<longrightarrow> length (notified new) = length trl)" if sch
  proof -
    from b1 that obtain new1 where
      n1: "cs1 = (cs @ [CallTrain]) @ new1" "run_protocol Idle new1 = Some Idle"
      "notified new1 = backward_losses new1" "backward_losses new1 = train_losses evs1"
      "\<forall>a. r1 = Inr a \<longrightarrow> length (notified new1) = length trl"
      by blast
    from c1 obtain new2 where
      n2: "cs2 = cs1 @ new2" "run_protocol Idle new2 = Some Idle" "notified new2 = []"
      "backward_losses new2 = []"
      by blast
    define new where "new = (if cs' = cs1 then CallTrain # new1 else CallTrain # new1 @ new2)"
    from st n1(1) n2(1) have "cs' = cs @ new" by (auto simp: new_def)
    moreover from n1(2) n2(2) have "run_protocol Idle new = Some Idle"
      by (simp add: new_def run_protocol_append next_phase_def)
    moreover from n1(3) n2(3,4) have "notified new = backward_losses new"
      by (simp add: new_def)
    moreover from n1(4) n2(4) tl have "backward_losses new = train_losses evs"
      by (simp add: new_def)
    moreover from n1(5) n2(3) ok have "\<forall>sv. r = Inr sv \<longrightarrow> length (notified new) = length trl"
      by (auto simp: new_def)
    ultimately show ?thesis by blast
  qed
  with t show ?thesis by blast
qed

text \<open>
  The epoch loop: the calls of the epochs follow one another, and each completed epoch
  adds one entry to the history and \<open>n\<close> notifications.
\<close>

lemma epoch_loop_recording:
  assumes body: "\<And>epoch w cs v r w' cs' evs. bodyR epoch (w, cs) v = (r, (w', cs'), evs)
      \<Longrightarrow> body epoch w v = (r, w', evs)
          \<and> (\<exists>new. cs' = cs @ new \<and> run_protocol Idle new = Some Idle
                 \<and> notified new = backward_losses new
                 \<and> backward_losses new = train_losses evs
                 \<and> (\<forall>stop v'. r = Inr (stop, v')
                       \<longrightarrow> len v' = Suc (len v) \<and> length (notified new) = n))"
  shows "epoch_loop bodyR es (w, cs) v = (r, (w', cs'), evs)
    \<Longrightarrow> epoch_loop body es w v = (r, w', evs)
        \<and> (\<exists>new. cs' = cs @ new \<and> run_protocol Idle new = Some Idle
               \<and> notified new = backward_losses new
               \<and> backward_losses new = train_losses evs
               \<and> (\<forall>v'. r = Inr v'
                     \<longrightarrow> (\<exists>k. len v' = len v + k \<and> length (notified new) = k * n)))"
proof (induction es arbitrary: w cs v r w' cs' evs)
  case Nil
  then have "epoch_loop body [] w v = (r, w', evs)" "cs' = cs @ []" "evs = []" "r = Inr v"
    by auto
  then show ?case by (intro conjI exI [of _ "[]"]) auto
next
  case (Cons epoch es)
  obtain r1 w1 cs1 evs1 where b: "bodyR epoch (w, cs) v = (r1, (w1, cs1), evs1)"
    by (metis prod.exhaust)
  from body [OF b] obtain new1 where
    bT: "body epoch w v = (r1, w1, evs1)" and
    n1: "cs1 = cs @ new1" "run_protocol Idle new1 = Some Idle"
      "notified new1 = backward_losses new1" "backward_losses new1 = train_losses evs1"
      "\<forall>stop v'. r1 = Inr (stop, v') \<longrightarrow> len v' = Suc (len v) \<and> length (notified new1) = n"
    by blast
  show ?case
  proof (cases r1)
    case (Inl e)
    with Cons.prems b have "r = Inl e" "w' = w1" "cs' = cs1" "evs = evs1" by simp_all
    moreover from Inl bT have "epoch_loop body (epoch # es) w v = (Inl e, w1, evs1)" by simp
    ultimately show ?thesis using n1 by (intro conjI exI [of _ new1]) auto
  next
    case (Inr sv)
    obtain stop v1 where sv: "sv = (stop, v1)" by (cases sv)
    show ?thesis
    proof (cases stop)
      case True
      with Cons.prems b Inr sv have e: "r = Inr v1" "w' = w1" "cs' = cs1" "evs = evs1"
        by simp_all
      from True Inr sv bT have "epoch_loop body (epoch # es) w v = (Inr v1, w1, evs1)" by simp
      moreover from n1(5) Inr sv have "len v1 = len v + 1 \<and> length (notified new1) = 1 * n"
        by simp
      then have "\<exists>k. len v1 = len v + k \<and> length (notified new1) = k * n" by blast
      ultimately show ?thesis using n1 e by (intro conjI exI [of _ new1]) auto
    next
      case False
      with Cons.prems b Inr sv obtain evs2 where
        rec: "epoch_loop bodyR es (w1, cs1) v1 = (r, (w', cs'), evs2)" and e: "evs = evs1 @ evs2"
        by (auto split: prod.splits)
      from Cons.IH [OF rec] obtain new2 where
        rT: "epoch_loop body es w1 v1 = (r, w', evs2)" and
        n2: "cs' = cs1 @ new2" "run_protocol Idle new2 = Some Idle"
          "notified new2 = backward_losses new2" "backward_losses new2 = train_losses evs2"
          "\<forall>v'. r = Inr v' \<longrightarrow> (\<exists>k. len v' = len v1 + k \<and> length (notified new2) = k * n)"
        by blast
      from False Inr sv bT rT e have "epoch_loop body (epoch # es) w v = (r, w', evs)" by simp
      moreover from n1(1) n2(1) have "cs' = cs @ (new1 @ new2)" by simp
      moreover from n1(2) n2(2) have "run_protocol Idle (new1 @ new2) = Some Idle"
        by (simp add: run_protocol_append)
      moreover from n1(3) n2(3) have "notified (new1 @ new2) = backward_losses (new1 @ new2)"
        by simp
      moreover from n1(4) n2(4) e have "backward_losses (new1 @ new2) = train_losses evs"
        by simp
      moreover have "\<exists>k. len v' = len v + k \<and> length (notified (new1 @ new2)) = k * n"
        if "r = Inr v'" for v'
      proof -
        from n2(5) that obtain k where
          k: "len v' = len v1 + k" "length (notified new2) = k * n" by auto
        from n1(5) Inr sv have "len v1 = Suc (len v)" "length (notified new1) = n" by auto
        with k have "len v' = len v + Suc k \<and> length (notified (new1 @ new2)) = Suc k * n"
          by simp
        then show ?thesis by blast
      qed
      ultimately show ?thesis by blast
    qed
  qed
qed

text \<open>
  C9: run \<open>train_unet_with_scheduler\<close> with a scheduler on the framework \<open>recording T\<close>,
  from any state \<open>w\<close> with any calls \<open>cs\<close> recorded before. Whether the run returns or
  raises, it does to \<open>w\<close> and returns what the run on \<open>T\<close> itself does, and the calls
  \<open>new\<close> it applied to the state follow the order of \<open>notifies_each_batch\<close>: each
  training batch is a forward pass with gradients, \<open>zero_grad\<close>, \<open>backward\<close> of the loss
  \<open>l\<close> of the batch, one call of \<open>optimizer.step()\<close> and then one call of
  \<open>scheduler.step(l)\<close> with that same loss, and neither of the two is called anywhere
  else. The values the scheduler was called with are the losses that were backpropagated, in
  order, which are the losses of the training batches that the run computed; when the run
  returns there are as many of them as completed epochs times batches.
\<close>

theorem C9_scheduler_notified:
  assumes "train_unet_with_scheduler (recording T) True train_loader val_loader
             do_early_stopping patience0 epochs log_fn log_every (w, cs) = (r, (w', cs'), evs)"
  shows "train_unet_with_scheduler T True train_loader val_loader do_early_stopping patience0
             epochs log_fn log_every w = (r, w', evs)
       \<and> (\<exists>new. cs' = cs @ new \<and> notifies_each_batch new
              \<and> notified new = backward_losses new
              \<and> notified new = train_losses evs
              \<and> (\<forall>tr va di. r = Inr (tr, va, di)
                    \<longrightarrow> length (notified new) = length tr * length train_loader))"
proof -
  let ?bodyR = "unet_train_epoch (recording T) True train_loader val_loader log_fn log_every"
  let ?body = "unet_train_epoch T True train_loader val_loader log_fn log_every"
  let ?v0 = "\<lparr>epoch_train_errors = [], epoch_val_errors = [],
               early_stopping =
                 (if do_early_stopping then Some (EarlyStoppingForUnet_init patience0) else None),
               epoch_dice_values = [], epoc_acc = []\<rparr>"
  obtain r1 w1 cs1 evs1 where
    run: "epoch_loop ?bodyR [0..<nat epochs] (w, cs) ?v0 = (r1, (w1, cs1), evs1)"
    by (metis prod.exhaust)
  have p: "epoch_loop ?body [0..<nat epochs] w ?v0 = (r1, w1, evs1)
        \<and> (\<exists>new. cs1 = cs @ new \<and> run_protocol Idle new = Some Idle
               \<and> notified new = backward_losses new
               \<and> backward_losses new = train_losses evs1
               \<and> (\<forall>v'. r1 = Inr v'
                     \<longrightarrow> (\<exists>k. length (epoch_train_errors v')
                                = length (epoch_train_errors ?v0) + k
                              \<and> length (notified new) = k * length train_loader)))"
  proof (rule epoch_loop_recording [where bodyR = ?bodyR and body = ?body
        and len = "\<lambda>v. length (epoch_train_errors v)"])
    show "epoch_loop ?bodyR [0..<nat epochs] (w, cs) ?v0 = (r1, (w1, cs1), evs1)" by (rule run)
  next
    fix epoch w cs v r w' cs' evs
    assume b: "?bodyR epoch (w, cs) v = (r, (w', cs'), evs)"
    from unet_train_epoch_recording [OF b] obtain new where
      bT: "?body epoch w v = (r, w', evs)" and
      n: "cs' = cs @ new" "run_protocol Idle new = Some Idle"
        "notified new = backward_losses new" "backward_losses new = train_losses evs"
        "\<forall>sv. r = Inr sv \<longrightarrow> length (notified new) = length train_loader"
      by blast
    from unet_train_epoch_step [of T True _ _ _ _ epoch w v] bT
    have "\<forall>stop v'. r = Inr (stop, v')
            \<longrightarrow> length (epoch_train_errors v') = Suc (length (epoch_train_errors v))"
      by auto
    with n bT
    show "?body epoch w v = (r, w', evs)
          \<and> (\<exists>new. cs' = cs @ new \<and> run_protocol Idle new = Some Idle
                 \<and> notified new = backward_losses new
                 \<and> backward_losses new = train_losses evs
                 \<and> (\<forall>stop v'. r = Inr (stop, v')
                       \<longrightarrow> length (epoch_train_errors v') = Suc (length (epoch_train_errors v))
                           \<and> length (notified new) = length train_loader))"
      by (intro conjI exI [of _ new]) auto
  qed
  then obtain new where
    pT: "epoch_loop ?body [0..<nat epochs] w ?v0 = (r1, w1, evs1)" and
    n: "cs1 = cs @ new" "run_protocol Idle new = Some Idle"
      "notified new = backward_losses new" "backward_losses new = train_losses evs1"
      "\<forall>v'. r1 = Inr v' \<longrightarrow> (\<exists>k. length (epoch_train_errors v')
                                = length (epoch_train_errors ?v0) + k
                              \<and> length (notified new) = k * length train_loader)"
    by blast
  from assms run have e: "evs = evs1" "w' = w1" "cs' = cs1"
    by (auto simp: train_unet_with_scheduler_def Let_def split: sum.splits)
  from assms run pT
  have t: "train_unet_with_scheduler T True train_loader val_loader do_early_stopping patience0
             epochs log_fn log_every w = (r, w', evs)"
    by (auto simp: train_unet_with_scheduler_def Let_def split: sum.splits)
  from assms run
  have "\<forall>tr va di. r = Inr (tr, va, di) \<longrightarrow> (\<exists>v'. r1 = Inr v' \<and> tr = epoch_train_errors v')"
    by (auto simp: train_unet_with_scheduler_def Let_def split: sum.splits)
  with n(5) have "\<forall>tr va di. r = Inr (tr, va, di)
                    \<longrightarrow> length (notified new) = length tr * length train_loader"
    by auto
  with t e n(1-4) show ?thesis
    by (intro conjI exI [of _ new]) (auto simp: notifies_each_batch_def)
qed


text \<open>
  A run with one training batch, stopped early in its second epoch, and the same run of
  \<open>train_unet\<close>.
\<close>

lemma toy_recording_run:
  "train_unet_with_scheduler (recording (toy growing_loss)) True [([1], [1])] [([2], [1])]
       True 1 5 True 1 ((0, True), [])
     = (Inr ([Fin 0, Fin 1], [Fin 0, Fin 1], [Fin 1, Fin 0]),
        ((2, False),
         [CallTrain, CallForward True, CallZeroGrad, CallBackward (Fin 0), CallOptStep,
          CallSchedStep (Fin 0), CallEval, CallTo, CallForward False,
          CallTrain, CallForward True, CallZeroGrad, CallBackward (Fin 1), CallOptStep,
          CallSchedStep (Fin 1), CallEval, CallTo, CallForward False]),
        [ModelTrain, Forward True, Criterion True (Fin 0), ZeroGrad, Backward, OptStep,
         SchedStep (Fin 0),
         ModelEval, ModelTo, Forward False, Criterion False (Fin 0), PrintBest (Fin 1),
         LogFnUnet 0 (Fin 0) (Fin 0) (Fin 1) (Fin 1),
         ModelTrain, Forward True, Criterion True (Fin 1), ZeroGrad, Backward, OptStep,
         SchedStep (Fin 1),
         ModelEval, ModelTo, Forward False, Criterion False (Fin 1), PrintCounter 1,
         LogFnUnet 1 (Fin 1) (Fin 1) (Fin 0) (Fin 0), PrintStop 1 (Fin 1)])"
  by (simp add: train_unet_with_scheduler_def recording_def run_defs dice_of_0_1 dice_of_1_2)

lemma toy_recording_unet_run:
  "train_unet (recording (toy growing_loss)) [([1], [1])] [([2], [1])]
       True 1 5 True 1 ((0, True), [])
     = (Inr ([Fin 0, Fin 1], [Fin 0, Fin 1], [Fin 1, Fin 0]),
        ((2, False),
         [CallTrain, CallForward True, CallZeroGrad, CallBackward (Fin 0), CallOptStep,
          CallEval, CallTo, CallForward False,
          CallTrain, CallForward True, CallZeroGrad, CallBackward (Fin 1), CallOptStep,
          CallEval, CallTo, CallForward False]),
        [ModelTrain, Forward True, Criterion True (Fin 0), ZeroGrad, Backward, OptStep,
         ModelEval, ModelTo, Forward False, Criterion False (Fin 0), PrintBest (Fin 1),
         LogFnUnet 0 (Fin 0) (Fin 0) (Fin 1) (Fin 1),
         ModelTrain, Forward True, Criterion True (Fin 1), ZeroGrad, Backward, OptStep,
         ModelEval, ModelTo, Forward False, Criterion False (Fin 1), PrintCounter 1,
         LogFnUnet 1 (Fin 1) (Fin 1) (Fin 0) (Fin 0), PrintStop 1 (Fin 1)])"
  by (simp add: train_unet_def train_unet_with_scheduler_def recording_def run_defs
      dice_of_0_1 dice_of_1_2)

theorem C9_scheduler_notified_witness:
  "train_unet_with_scheduler (recording (toy growing_loss)) True [([1], [1])] [([2], [1])]
       True 1 5 True 1 ((0, True), [])
     = (Inr ([Fin 0, Fin 1], [Fin 0, Fin 1], [Fin 1, Fin 0]),
        ((2, False),
         [CallTrain, CallForward True, CallZeroGrad, CallBackward (Fin 0), CallOptStep,
          CallSchedStep (Fin 0), CallEval, CallTo, CallForward False,
          CallTrain, CallForward True, CallZeroGrad, CallBackward (Fin 1), CallOptStep,
          CallSchedStep (Fin 1), CallEval, CallTo, CallForward False]),
        [ModelTrain, Forward True, Criterion True (Fin 0), ZeroGrad, Backward, OptStep,
         SchedStep (Fin 0),
         ModelEval, ModelTo, Forward False, Criterion False (Fin 0), PrintBest (Fin 1),
         LogFnUnet 0 (Fin 0) (Fin 0) (Fin 1) (Fin 1),
         ModelTrain, Forward True, Criterion True (Fin 1), ZeroGrad, Backward, OptStep,
         SchedStep (Fin 1),
         ModelEval, ModelTo, Forward False, Criterion False (Fin 1), PrintCounter 1,
         LogFnUnet 1 (Fin 1) (Fin 1) (Fin 0) (Fin 0), PrintStop 1 (Fin 1)])
   \<and> notifies_each_batch
        [CallTrain, CallForward True, CallZeroGrad, CallBackward (Fin 0), CallOptStep,
         CallSchedStep (Fin 0), CallEval, CallTo, CallForward False,
         CallTrain, CallForward True, CallZeroGrad, CallBackward (Fin 1), CallOptStep,
         CallSchedStep (Fin 1), CallEval, CallTo, CallForward False]
   \<and> notified
        [CallTrain, CallForward True, CallZeroGrad, CallBackward (Fin 0), CallOptStep,
         CallSchedStep (Fin 0), CallEval, CallTo, CallForward False,
         CallTrain, CallForward True, CallZeroGrad, CallBackward (Fin 1), CallOptStep,
         CallSchedStep (Fin 1), CallEval, CallTo, CallForward False] = [Fin 0, Fin 1]"
  using C9_scheduler_notified [OF toy_recording_run] toy_recording_run
  by simp

text \<open>
  The same run of \<open>train_unet\<close>, which has no scheduler, does not follow that order.
\<close>

lemma no_scheduler_no_notification:
  "\<not> notifies_each_batch
        (snd (fst (snd (train_unet (recording (toy growing_loss)) [([1], [1])] [([2], [1])]
                          True 1 5 True 1 ((0, True), [])))))"
  by (simp add: toy_recording_unet_run notifies_each_batch_def next_phase_def)

section \<open>The mean training loss\<close>

lemma train_batches_sum:
  "train_batches T bs w acc = (r, w', evs)
   \<Longrightarrow> r = foldl fadd acc (train_losses evs) \<and> length (train_losses evs) = length bs"
proof (induction bs arbitrary: w acc r w' evs)
  case Nil
  then show ?case by simp
next
  case (Cons b bs)
  obtain x y where b: "b = (x, y)" by (cases b)
  obtain out w2 where f: "forward T True (zero_grad T w) (x_to T x) = (out, w2)"
    by (cases "forward T True (zero_grad T w) (x_to T x)")
  let ?l = "criterion T out (y_to T y)"
  from Cons.prems b f obtain w4 evs4 where
    rec: "train_batches T bs w4 (fadd acc ?l) = (r, w', evs4)"
    and eq: "evs = ZeroGrad # Forward True # Criterion True ?l # Backward # OptStep # evs4"
    by (auto simp: Let_def split: prod.splits)
  from Cons.IH [OF rec] eq show ?case by simp
qed

lemma foldl_fadd_replicate:
  assumes rep: "\<forall>k. 1 \<le> k \<and> k \<le> n \<longrightarrow> double (of_nat k * c) = Fin (of_nat k * c)"
  shows "j + m \<le> n
    \<Longrightarrow> foldl fadd (Fin (of_nat j * c)) (replicate m (Fin c)) = Fin (of_nat (j + m) * c)"
proof (induction m arbitrary: j)
  case 0
  then show ?case by simp
next
  case (Suc m)
  from Suc.prems have "1 \<le> Suc j \<and> Suc j \<le> n" by simp
  with rep have "double (of_nat (Suc j) * c) = Fin (of_nat (Suc j) * c)" by blast
  moreover have "of_nat j * c + c = of_nat (Suc j) * c" by (simp add: algebra_simps)
  ultimately have "fadd (Fin (of_nat j * c)) (Fin c) = Fin (of_nat (Suc j) * c)"
    by (simp only: fadd_def ieee_add.simps)
  with Suc.IH [of "Suc j"] Suc.prems show ?case by simp
qed

lemma mean_of_equal_losses:
  assumes rep: "\<forall>k. 1 \<le> k \<and> k \<le> n \<longrightarrow> double (of_nat k * c) = Fin (of_nat k * c)"
    and n: "double (of_nat n) = Fin (of_nat n)" and pos: "0 < n"
  shows "py_div_len (foldl fadd (Fin 0) (replicate n (Fin c))) n = Inr (Fin c)"
proof -
  have "foldl fadd (Fin (of_nat 0 * c)) (replicate n (Fin c)) = Fin (of_nat (0 + n) * c)"
    by (rule foldl_fadd_replicate [OF rep]) simp
  then have s: "foldl fadd (Fin 0) (replicate n (Fin c)) = Fin (of_nat n * c)" by simp
  from rep pos have "double (of_nat 1 * c) = Fin (of_nat 1 * c)" by (metis One_nat_def Suc_leI le_refl)
  then have c: "double c = Fin c" by simp
  from pos n c show ?thesis
    by (simp add: s py_div_len_def)
qed

lemma evaluate_quiet:
  assumes a: "evaluate T dl w = (r, w', evs)"
  shows "train_losses evs = []"
proof -
  obtain r1 w1 evs1 where b: "evaluate_batches T dl (model_eval T w) (Fin 0) = (r1, w1, evs1)"
    by (cases "evaluate_batches T dl (model_eval T w) (Fin 0)")
  from evaluate_batches_frame [OF _ b, of "\<lambda>_. ()"] have "list_all inference_event evs1" by simp
  then have "train_losses evs1 = []" by (rule train_losses_inference)
  with a b show ?thesis by (auto simp: evaluate_def)
qed

text \<open>
  The mean that an epoch of \<open>train\<close> records is the rounded quotient of the rounded
  running sum of the batch losses by the number of batches.
\<close>

lemma train_epoch_mean:
  assumes run: "train_epoch T train_loader val_loader log_fn log_every epoch w v
                  = (Inr (stop, v'), w', evs)"
  shows "\<exists>mean. py_div_len (foldl fadd (Fin 0) (train_losses evs)) (length train_loader) = Inr mean
           \<and> epoch_train_errors v' = epoch_train_errors v @ [mean]
           \<and> length (train_losses evs) = length train_loader
           \<and> 0 < length train_loader"
proof -
  obtain tl0 w1 evs1 where
    a: "train_batches T train_loader (model_train T w) (Fin 0) = (tl0, w1, evs1)"
    by (cases "train_batches T train_loader (model_train T w) (Fin 0)")
  obtain r2 w2 evs2 where b: "evaluate T val_loader w1 = (r2, w2, evs2)"
    by (cases "evaluate T val_loader w1")
  note q = evaluate_quiet [OF b]
  from run a b q have l: "train_losses evs = train_losses evs1"
    by (auto simp: train_epoch_def Let_def split: sum.splits option.splits if_splits)
  from run a have pos: "0 < length train_loader"
    by (auto simp: train_epoch_def py_div_len_def split: sum.splits)
  from train_batches_sum [OF a] l
  have s: "tl0 = foldl fadd (Fin 0) (train_losses evs)"
    "length (train_losses evs) = length train_loader" by simp_all
  from run a obtain mean where m: "py_div_len tl0 (length train_loader) = Inr mean"
    by (auto simp: train_epoch_def split: sum.splits)
  with run a b have "epoch_train_errors v' = epoch_train_errors v @ [mean]"
    by (auto simp: train_epoch_def Let_def split: sum.splits option.splits if_splits)
  with m s pos show ?thesis by blast
qed

text \<open>
  C8, as stated, fails: the sum and the quotient are rounded. With three batches of loss
  0.1 each, the mean that \<open>train\<close> records for the epoch is 0.10000000000000002
  (7205759403792795 / 2^56), not 0.1 (7205759403792794 / 2^56).
\<close>

theorem C8_counterexample:
  "fst (train (toy (\<lambda>out y. double (1 / 10))) [([], []), ([], []), ([], [])] [([], [])]
          True 5 1 True 1 (0, True))
     = Inr ([Fin (7205759403792795 / 72057594037927936)], [double (1 / 10)])
   \<and> train_losses (snd (snd (train (toy (\<lambda>out y. double (1 / 10)))
          [([], []), ([], []), ([], [])] [([], [])] True 5 1 True 1 (0, True))))
     = [double (1 / 10), double (1 / 10), double (1 / 10)]
   \<and> Fin (7205759403792795 / 72057594037927936) \<noteq> double (1 / 10)"
  by (simp add: toy_tenth_run_3 double_tenth)

text \<open>
  C8, amended: in an epoch of \<open>train\<close> whose batches all yield the loss \<open>c\<close>, the mean
  recorded for the epoch is \<open>c\<close> exactly whenever no partial sum is rounded: \<open>k * c\<close> is a
  float for every \<open>k\<close> from 1 to the number of batches, and the number of batches is
  converted to a float exactly.
\<close>

theorem C8_mean_of_equal_losses:
  assumes run: "train_epoch T train_loader val_loader log_fn log_every epoch w v
             = (Inr (stop, v'), w', evs)"
    and same: "train_losses evs = replicate (length train_loader) (Fin c)"
    and rep: "\<forall>k. 1 \<le> k \<and> k \<le> length train_loader \<longrightarrow> double (of_nat k * c) = Fin (of_nat k * c)"
    and n: "double (of_nat (length train_loader)) = Fin (of_nat (length train_loader))"
  shows "epoch_train_errors v' = epoch_train_errors v @ [Fin c]"
proof -
  from train_epoch_mean [OF run] obtain mean where
    m: "py_div_len (foldl fadd (Fin 0) (train_losses evs)) (length train_loader) = Inr mean"
    and h: "epoch_train_errors v' = epoch_train_errors v @ [mean]"
    and pos: "0 < length train_loader"
    by blast
  from mean_of_equal_losses [OF rep n pos] m same have "mean = Fin c" by simp
  with h show ?thesis by simp
qed

text \<open>
  This is so for losses that are float32 values (the \<open>.item()\<close> of a float32 tensor) and
  fewer than \<open>2 ^ 29\<close> batches: no partial sum needs more than 53 bits.
\<close>

lemma float32_losses_mean_exact:
  assumes run: "train_epoch T train_loader val_loader log_fn log_every epoch w v
                  = (Inr (stop, v'), w', evs)"
    and same: "train_losses evs = replicate (length train_loader) (Fin c)"
    and c: "c = of_int m * pow2 e" "\<bar>m\<bar> < 2 ^ 24" "- 149 \<le> e" "e \<le> 104"
    and n: "length train_loader < 2 ^ 29"
  shows "epoch_train_errors v' = epoch_train_errors v @ [Fin c]"
proof -
  have rep: "\<forall>k. 1 \<le> k \<and> k \<le> length train_loader
               \<longrightarrow> double (of_nat k * c) = Fin (of_nat k * c)"
  proof (intro allI impI)
    fix k :: nat
    assume "1 \<le> k \<and> k \<le> length train_loader"
    with n have "k < 2 ^ 29" by simp
    with c show "double (of_nat k * c) = Fin (of_nat k * c)"
      by (intro float32_value_sums_exact [where m = m and e = e])
  qed
  from n have "length train_loader < 2 ^ 53"
    by (rule less_trans) simp
  then have len: "double (of_nat (length train_loader)) = Fin (of_nat (length train_loader))"
    by (rule double_of_nat_exact)
  from train_epoch_mean [OF run] obtain mean where
    m: "py_div_len (foldl fadd (Fin 0) (train_losses evs)) (length train_loader) = Inr mean"
    and h: "epoch_train_errors v' = epoch_train_errors v @ [mean]"
    and pos: "0 < length train_loader"
    by blast
  from mean_of_equal_losses [OF rep len pos] m same have "mean = Fin c" by simp
  with h show ?thesis by simp
qed

text \<open>Two batches of loss 0.1: 0.1 and 0.2 are floats, and the recorded mean is 0.1.\<close>

lemma toy_tenth_epoch_2:
  "train_epoch (toy (\<lambda>out y. Fin (3602879701896397 / 36028797018963968)))
       [([], []), ([], [])] [([], [])] True 1 0 (0, True)
       \<lparr>epoch_train_errors = [], epoch_val_errors = [], early_stopping = None\<rparr>
     = (Inr (False,
          \<lparr>epoch_train_errors = [Fin (3602879701896397 / 36028797018963968)],
             epoch_val_errors = [Fin (3602879701896397 / 36028797018963968)],
             early_stopping = None\<rparr>),
        (2, False),
        [ModelTrain,
         ZeroGrad, Forward True, Criterion True (Fin (3602879701896397 / 36028797018963968)),
         Backward, OptStep,
         ZeroGrad, Forward True, Criterion True (Fin (3602879701896397 / 36028797018963968)),
         Backward, OptStep,
         ModelEval, Forward False, Criterion False (Fin (3602879701896397 / 36028797018963968)),
         LogFn 0 (Fin (3602879701896397 / 36028797018963968))
           (Fin (3602879701896397 / 36028797018963968))])"
  by (simp add: run_defs double_tenth_again double_fifth_again)

lemma tenth_partial_sums:
  "\<forall>k. 1 \<le> k \<and> k \<le> length [([] :: int list, [] :: int list), ([], [])]
       \<longrightarrow> double (of_nat k * (3602879701896397 / 36028797018963968))
           = Fin (of_nat k * (3602879701896397 / 36028797018963968))"
proof (intro allI impI)
  fix k :: nat
  assume "1 \<le> k \<and> k \<le> length [([] :: int list, [] :: int list), ([], [])]"
  then have "k = 1 \<or> k = 2" by auto
  then show "double (of_nat k * (3602879701896397 / 36028797018963968))
           = Fin (of_nat k * (3602879701896397 / 36028797018963968))"
    by (auto simp: double_tenth_again double_fifth_again)
qed

theorem C8_mean_of_equal_losses_witness:
  "train_losses
        [ModelTrain,
         ZeroGrad, Forward True, Criterion True (Fin (3602879701896397 / 36028797018963968)),
         Backward, OptStep,
         ZeroGrad, Forward True, Criterion True (Fin (3602879701896397 / 36028797018963968)),
         Backward, OptStep,
         ModelEval, Forward False, Criterion False (Fin (3602879701896397 / 36028797018963968)),
         LogFn 0 (Fin (3602879701896397 / 36028797018963968))
           (Fin (3602879701896397 / 36028797018963968))]
      = [Fin (3602879701896397 / 36028797018963968), Fin (3602879701896397 / 36028797018963968)]
   \<and> double (3602879701896397 / 36028797018963968) = Fin (3602879701896397 / 36028797018963968)
   \<and> double (2 * (3602879701896397 / 36028797018963968))
       = Fin (2 * (3602879701896397 / 36028797018963968))
   \<and> double 2 = Fin 2
   \<and> epoch_train_errors (snd (projr (fst
        (train_epoch (toy (\<lambda>out y. Fin (3602879701896397 / 36028797018963968)))
           [([], []), ([], [])] [([], [])] True 1 0 (0, True)
           \<lparr>epoch_train_errors = [], epoch_val_errors = [], early_stopping = None\<rparr>))))
       = [] @ [Fin (3602879701896397 / 36028797018963968)]"
proof -
  have same: "train_losses
        [ModelTrain,
         ZeroGrad, Forward True, Criterion True (Fin (3602879701896397 / 36028797018963968)),
         Backward, OptStep,
         ZeroGrad, Forward True, Criterion True (Fin (3602879701896397 / 36028797018963968)),
         Backward, OptStep,
         ModelEval, Forward False, Criterion False (Fin (3602879701896397 / 36028797018963968)),
         LogFn 0 (Fin (3602879701896397 / 36028797018963968))
           (Fin (3602879701896397 / 36028797018963968))]
      = replicate (length [([] :: int list, [] :: int list), ([], [])])
          (Fin (3602879701896397 / 36028797018963968))"
    by (simp add: numeral_2_eq_2)
  have n: "double (of_nat (length [([] :: int list, [] :: int list), ([], [])]))
             = Fin (of_nat (length [([] :: int list, [] :: int list), ([], [])]))"
    by (simp add: double_2)
  from C8_mean_of_equal_losses [OF toy_tenth_epoch_2 same tenth_partial_sums n] same
  show ?thesis
    by (simp add: toy_tenth_epoch_2 double_tenth_again double_fifth_again double_2)
qed

end
